theory Spec2Isabelle
  imports Main "HOL-Library.Word"
begin

section \<open>Values of the platform\<close>

text \<open>
  The service worker (\<^verbatim>\<open>src/service-worker.js\<close>) runs against four platform services:
  the network (\<^verbatim>\<open>fetch\<close>), the Cache API (\<^verbatim>\<open>caches\<close>), an IndexedDB object store
  and the clients of the worker. What a platform call answers is an input of the model
  (the record \<open>env\<close> below); what the worker does with the answer is the model.
  An asynchronous call is modelled by the state its promise ends in.
\<close>

type_synonym byte = "8 word"

datatype error =
    NetworkError
  | TypeError
  | SyntaxError
  | OpenDatabaseError
  | TransactionError
  | TransactionInactiveError
  | AddError
  | DeleteError

datatype 'a promise = Fulfilled 'a | Rejected error | Pending

text \<open>
  JavaScript values, as far as \<^verbatim>\<open>JSON.parse\<close> and \<^verbatim>\<open>JSON.stringify\<close> see them. The
  worker does no arithmetic on them; numbers are integers here.
\<close>

datatype js =
    JUndefined
  | JNull
  | JBool bool
  | JNum int
  | JStr string
  | JArr "js list"
  | JObj "(string \<times> js) list"

subsection \<open>URLs, requests, responses\<close>

text \<open>
  \<^verbatim>\<open>Request.url\<close> is always an absolute URL: the worker itself parses it with
  \<^verbatim>\<open>new URL(event.request.url)\<close> and reads \<^verbatim>\<open>hostname\<close>, \<^verbatim>\<open>pathname\<close>,
  \<^verbatim>\<open>search\<close>, \<^verbatim>\<open>protocol\<close> and \<^verbatim>\<open>href\<close>. A request therefore carries the parsed
  URL, and \<open>href\<close> is the string \<^verbatim>\<open>request.url\<close>. The protocol includes its colon
  (\<^verbatim>\<open>https:\<close>), the search its question mark; port and fragment are left out.

  The body of a request is null (\<open>None\<close>) or a byte sequence. \<open>resp_vary\<close> holds the
  field values of the \<^verbatim>\<open>Vary\<close> header of a response; header names are in lower case,
  as a \<^verbatim>\<open>Headers\<close> object lists them.
\<close>

record url =
  protocol :: string
  hostname :: string
  pathname :: string
  search :: string

definition href :: "url \<Rightarrow> string" where
  "href u = protocol u @ ''//'' @ hostname u @ pathname u @ search u"

record request =
  req_url :: url
  req_method :: string
  req_headers :: "(string \<times> string) list"
  req_credentials :: string
  req_mode :: string
  req_body :: "byte list option"

datatype body = Text string | JsonText js

record response =
  status :: nat
  rtype :: string
  resp_headers :: "(string \<times> string) list"
  resp_vary :: "string list"
  resp_body :: body

definition ok :: "response \<Rightarrow> bool" where
  "ok r = (200 \<le> status r \<and> status r \<le> 299)"

definition startsWith :: "string \<Rightarrow> string \<Rightarrow> bool" where
  "startsWith s p = (take (length p) s = p)"

subsection \<open>The Cache API\<close>

text \<open>
  A cache is a list of (request, response) pairs; the cache storage is the list of the
  named caches in creation order. The platform's rules for it:
  \<^item> a request that is not a GET matches nothing;
  \<^item> a stored pair answers a GET with the same URL whose headers agree with the stored
    request's on every header the stored response names in \<^verbatim>\<open>Vary\<close>;
  \<^item> \<^verbatim>\<open>caches.match\<close> searches every cache of the storage, in order;
  \<^item> \<^verbatim>\<open>cache.put\<close> rejects a request that is not a GET or whose URL is not an
    \<^verbatim>\<open>http\<close> or \<^verbatim>\<open>https\<close> URL, a response of status 206 and a response with
    \<^verbatim>\<open>Vary: *\<close>; otherwise it replaces the pairs that answer the request.
\<close>

type_synonym cache = "(request \<times> response) list"
type_synonym cache_storage = "(string \<times> cache) list"

definition matches :: "request \<Rightarrow> response \<Rightarrow> request \<Rightarrow> bool" where
  "matches k v r =
     (req_method r = ''GET'' \<and> req_url k = req_url r \<and>
      list_all (\<lambda>h. map_of (req_headers k) h = map_of (req_headers r) h) (resp_vary v))"

fun cache_match :: "cache \<Rightarrow> request \<Rightarrow> response option" where
  "cache_match [] r = None"
| "cache_match ((k, v) # c) r = (if matches k v r then Some v else cache_match c r)"

fun caches_match :: "cache_storage \<Rightarrow> request \<Rightarrow> response option" where
  "caches_match [] r = None"
| "caches_match ((name, c) # cs) r =
     (case cache_match c r of Some v \<Rightarrow> Some v | None \<Rightarrow> caches_match cs r)"

definition caches_open :: "cache_storage \<Rightarrow> string \<Rightarrow> cache_storage" where
  "caches_open cs name = (if name \<in> set (map fst cs) then cs else cs @ [(name, [])])"

definition put_refused :: "request \<Rightarrow> response \<Rightarrow> bool" where
  "put_refused r v =
     (req_method r \<noteq> ''GET'' \<or> protocol (req_url r) \<notin> set [''http:'', ''https:''] \<or>
      status v = 206 \<or> ''*'' \<in> set (resp_vary v))"

definition cache_put :: "cache \<Rightarrow> request \<Rightarrow> response \<Rightarrow> cache" where
  "cache_put c r v = filter (\<lambda>(k, u). \<not> matches k u r) c @ [(r, v)]"

definition storage_put :: "cache_storage \<Rightarrow> string \<Rightarrow> request \<Rightarrow> response \<Rightarrow> cache_storage" where
  "storage_put cs name r v =
     map (\<lambda>(n, c). if n = name then (n, cache_put c r v) else (n, c)) (caches_open cs name)"

definition cache_named :: "cache_storage \<Rightarrow> string \<Rightarrow> cache" where
  "cache_named cs name = (case map_of cs name of Some c \<Rightarrow> c | None \<Rightarrow> [])"

subsection \<open>The durable queue store\<close>

text \<open>
  The object store \<^verbatim>\<open>sync-queue\<close> has \<^verbatim>\<open>keyPath: 'id'\<close> and
  \<^verbatim>\<open>autoIncrement: true\<close>: a stored entry is the object built by \<^verbatim>\<open>addToSyncQueue\<close>
  under the key the store's generator assigns. \<^verbatim>\<open>getAll\<close> answers the entries in key
  order, which is the order of the list.
\<close>

record request_data =
  rd_url :: string
  rd_method :: string
  rd_headers :: "(string \<times> string) list"
  rd_credentials :: string
  rd_timestamp :: nat
  rd_body :: "byte list option"

record sync_store =
  entries :: "(nat \<times> request_data) list"
  next_key :: nat

definition store_add :: "sync_store \<Rightarrow> request_data \<Rightarrow> sync_store" where
  "store_add st rd =
     st\<lparr>entries := entries st @ [(next_key st, rd)], next_key := Suc (next_key st)\<rparr>"

record request_init =
  init_method :: string
  init_headers :: "(string \<times> string) list"
  init_credentials :: string
  init_body :: "byte list option"

subsection \<open>The environment\<close>

text \<open>
  One record holds what the platform answers: the worker's own location, the clock, the
  three ways the worker calls \<^verbatim>\<open>fetch\<close>, and the failures of the store and of the cache
  that no rule above decides (\<open>cache_write_fails\<close>: the quota is exceeded).
\<close>

record env =
  location_hostname :: string
  location_protocol :: string
  now :: nat
  fetch_nostore :: "string \<Rightarrow> response promise"
  fetch_request :: "request \<Rightarrow> response promise"
  fetch_init :: "string \<Rightarrow> request_init \<Rightarrow> response promise"
  cache_write_fails :: bool
  db_open :: "unit promise"
  transaction_throws :: bool
  add_fails :: bool
  getAll_fails :: bool
  delete_fails :: "nat \<Rightarrow> bool"
  sync_supported :: bool
  clients :: "nat list"

record world =
  caches :: cache_storage
  queue :: sync_store
  sync_tags :: "string list"

section \<open>The service worker\<close>

definition CACHE_NAME :: string where
  "CACHE_NAME = ''pwa-cache-v1''"

definition OFFLINE_URL :: string where
  "OFFLINE_URL = ''/offline.html''"

definition DATA_CACHE_NAME :: string where
  "DATA_CACHE_NAME = ''data-cache-v1''"

definition HOSTNAME_WHITELIST :: "env \<Rightarrow> string list" where
  "HOSTNAME_WHITELIST e =
     [location_hostname e, ''fonts.gstatic.com'', ''fonts.googleapis.com'', ''cdn.jsdelivr.net'']"

subsection \<open>Cache busting\<close>

definition digit :: "nat \<Rightarrow> char" where
  "digit d = char_of (48 + d)"

fun decimal :: "nat \<Rightarrow> string" where
  "decimal n = (if n < 10 then [digit n] else decimal (n div 10) @ [digit (n mod 10)])"

declare decimal.simps [simp del]

definition getFixedUrl :: "env \<Rightarrow> request \<Rightarrow> string" where
  "getFixedUrl e req =
     (let u = (req_url req)\<lparr>protocol := location_protocol e\<rparr>
      in href (if hostname u = location_hostname e
               then u\<lparr>search := search u @ (if search u \<noteq> [] then ''&'' else ''?'')
                                 @ ''cache-bust='' @ decimal (now e)\<rparr>
               else u))"

subsection \<open>Static assets: \<^verbatim>\<open>fetchAndUpdateCache\<close> and the fetch listener\<close>

text \<open>
  \<^verbatim>\<open>fetchAndUpdateCache\<close> fetches the cache-busted URL and, for a response with status
  200 and type \<^verbatim>\<open>basic\<close>, opens the static cache and puts a clone under the request it
  was given. The put is not awaited by the promise the function returns, and nothing
  handles its rejection: the model applies it at once, and a put that the cache refuses
  or that fails leaves the caches as they are.
\<close>

definition fetchAndUpdateCache :: "env \<Rightarrow> cache_storage \<Rightarrow> request \<Rightarrow> response promise \<times> cache_storage" where
  "fetchAndUpdateCache e cs req =
     (case fetch_nostore e (getFixedUrl e req) of
        Fulfilled r \<Rightarrow>
          if status r \<noteq> 200 \<or> rtype r \<noteq> ''basic''
          then (Fulfilled r, cs)
          else (Fulfilled r,
                if put_refused req r \<or> cache_write_fails e then cs
                else storage_put cs CACHE_NAME req r)
      | Rejected x \<Rightarrow> (Rejected x, cs)
      | Pending \<Rightarrow> (Pending, cs))"

definition offline_request :: "env \<Rightarrow> request" where
  "offline_request e =
     \<lparr>req_url = \<lparr>protocol = location_protocol e, hostname = location_hostname e,
                  pathname = OFFLINE_URL, search = []\<rparr>,
      req_method = ''GET'', req_headers = [], req_credentials = ''same-origin'',
      req_mode = ''cors'', req_body = None\<rparr>"

definition unavailable :: response where
  "unavailable =
     \<lparr>status = 200, rtype = ''default'', resp_headers = [], resp_vary = [],
      resp_body = Text ''Offline content unavailable''\<rparr>"

definition static_response :: "env \<Rightarrow> cache_storage \<Rightarrow> request \<Rightarrow> response option promise \<times> cache_storage" where
  "static_response e cs req =
     (case caches_match cs req of
        Some cached \<Rightarrow> (Fulfilled (Some cached), snd (fetchAndUpdateCache e cs req))
      | None \<Rightarrow>
          (case fetchAndUpdateCache e cs req of
             (Fulfilled r, cs') \<Rightarrow> (Fulfilled (Some r), cs')
           | (Rejected x, cs') \<Rightarrow>
               if req_mode req = ''navigate''
               then (Fulfilled (caches_match cs' (offline_request e)), cs')
               else (Fulfilled (Some unavailable), cs')
           | (Pending, cs') \<Rightarrow> (Pending, cs')))"

subsection \<open>Queueing: \<^verbatim>\<open>addToSyncQueue\<close>\<close>

text \<open>
  The body of \<^verbatim>\<open>addToSyncQueue\<close> is one \<^verbatim>\<open>try\<close> block. For a POST or a PUT it reads
  the body of the request it is given into a buffer: the empty buffer when the body is
  null. \<^verbatim>\<open>openSyncDatabase()\<close> is awaited inside the block, so its rejection reaches the
  \<^verbatim>\<open>catch\<close>, which logs and lets the function resolve. The promise that wraps \<^verbatim>\<open>store.add\<close> is returned
  without \<^verbatim>\<open>await\<close>: the \<^verbatim>\<open>try\<close> block has been left when it settles, so its rejection
  (by \<^verbatim>\<open>reject(addReq.error)\<close>, or by \<^verbatim>\<open>db.transaction\<close> throwing inside the executor) is
  the rejection of \<^verbatim>\<open>addToSyncQueue\<close> itself.
\<close>

definition requestData :: "env \<Rightarrow> request \<Rightarrow> request_data" where
  "requestData e req =
     \<lparr>rd_url = href (req_url req), rd_method = req_method req, rd_headers = req_headers req,
      rd_credentials = req_credentials req, rd_timestamp = now e,
      rd_body = (if req_method req \<in> set [''POST'', ''PUT'']
                 then Some (case req_body req of None \<Rightarrow> [] | Some b \<Rightarrow> b)
                 else None)\<rparr>"

definition register_sync :: "env \<Rightarrow> world \<Rightarrow> world" where
  "register_sync e w =
     (if sync_supported e then w\<lparr>sync_tags := List.insert ''sync-queue'' (sync_tags w)\<rparr> else w)"

definition addToSyncQueue :: "env \<Rightarrow> world \<Rightarrow> request \<Rightarrow> unit promise \<times> world" where
  "addToSyncQueue e w req =
     (case db_open e of
        Rejected x \<Rightarrow> (Fulfilled (), w)
      | Pending \<Rightarrow> (Pending, w)
      | Fulfilled _ \<Rightarrow>
          if transaction_throws e then (Rejected TransactionError, w)
          else if add_fails e then (Rejected AddError, w)
          else (Fulfilled (),
                register_sync e (w\<lparr>queue := store_add (queue w) (requestData e req)\<rparr>)))"

subsection \<open>API requests: \<^verbatim>\<open>handleAPIRequest\<close>\<close>

definition queued_response :: response where
  "queued_response =
     \<lparr>status = 200, rtype = ''default'',
      resp_headers = [(''Content-Type'', ''application/json'')], resp_vary = [],
      resp_body = JsonText (JObj [(''message'', JStr ''Request queued for sync''),
                                  (''queued'', JBool True)])\<rparr>"

definition unavailable_response :: response where
  "unavailable_response =
     \<lparr>status = 503, rtype = ''default'',
      resp_headers = [(''Content-Type'', ''application/json'')], resp_vary = [],
      resp_body = JsonText (JObj [(''error'', JStr ''Network unavailable'')])\<rparr>"

text \<open>
  The \<^verbatim>\<open>catch\<close> block of \<^verbatim>\<open>handleAPIRequest\<close>: nothing guards it, so what throws here
  (\<^verbatim>\<open>request.clone()\<close>, the awaited \<^verbatim>\<open>addToSyncQueue\<close>) rejects the promise handed to
  \<^verbatim>\<open>event.respondWith\<close>. The block runs after \<^verbatim>\<open>fetch(request)\<close>, which has taken the
  body of the request: \<^verbatim>\<open>request.clone()\<close> throws a \<^verbatim>\<open>TypeError\<close> unless the body is
  null. The clone of a request without a body has none either.
\<close>

definition network_failed :: "env \<Rightarrow> world \<Rightarrow> request \<Rightarrow> response option \<Rightarrow> response promise \<times> world" where
  "network_failed e w req cachedResponse =
     (case cachedResponse of
        Some cached \<Rightarrow> (Fulfilled cached, w)
      | None \<Rightarrow>
          if req_method req = ''POST'' \<or> req_method req = ''PUT''
          then (if req_body req \<noteq> None then (Rejected TypeError, w)
                else (case addToSyncQueue e w req of
                        (Fulfilled _, w') \<Rightarrow> (Fulfilled queued_response, w')
                      | (Rejected x, w') \<Rightarrow> (Rejected x, w')
                      | (Pending, w') \<Rightarrow> (Pending, w')))
          else (Fulfilled unavailable_response, w))"

text \<open>
  The \<^verbatim>\<open>try\<close> block: the network fetch, and for an ok response the awaited write to the
  data cache. A write that the cache refuses (every POST and PUT) or that fails throws
  inside the \<^verbatim>\<open>try\<close> and is handled like a failed fetch.
\<close>

definition handleAPIRequest :: "env \<Rightarrow> world \<Rightarrow> request \<Rightarrow> response promise \<times> world" where
  "handleAPIRequest e w req =
     (let cachedResponse = caches_match (caches w) req
      in case fetch_request e req of
           Pending \<Rightarrow> (Pending, w)
         | Rejected x \<Rightarrow> network_failed e w req cachedResponse
         | Fulfilled networkResponse \<Rightarrow>
             if ok networkResponse
             then (if put_refused req networkResponse \<or> cache_write_fails e
                   then network_failed e w req cachedResponse
                   else (Fulfilled networkResponse,
                         w\<lparr>caches := storage_put (caches w) DATA_CACHE_NAME req networkResponse\<rparr>))
             else (Fulfilled networkResponse, w))"

subsection \<open>The fetch listener\<close>

datatype interception = NotIntercepted | RespondWith "response option promise"

definition lift_response :: "response promise \<Rightarrow> response option promise" where
  "lift_response p = (case p of Fulfilled r \<Rightarrow> Fulfilled (Some r) | Rejected x \<Rightarrow> Rejected x | Pending \<Rightarrow> Pending)"

definition fetch_listener :: "env \<Rightarrow> world \<Rightarrow> request \<Rightarrow> interception \<times> world" where
  "fetch_listener e w req =
     (if startsWith (pathname (req_url req)) ''/api''
      then (case handleAPIRequest e w req of (p, w') \<Rightarrow> (RespondWith (lift_response p), w'))
      else if hostname (req_url req) \<in> set (HOSTNAME_WHITELIST e)
      then (case static_response e (caches w) req of (p, cs') \<Rightarrow> (RespondWith p, w\<lparr>caches := cs'\<rparr>))
      else (NotIntercepted, w))"

subsection \<open>Replay: \<^verbatim>\<open>processSyncQueue\<close>\<close>

text \<open>
  \<^verbatim>\<open>processSyncQueue\<close> calls \<^verbatim>\<open>db.transaction(STORE_NAME, 'readwrite')\<close> once and keeps
  the object store of that transaction in \<^verbatim>\<open>store\<close>: \<^verbatim>\<open>getAll\<close> and every
  \<^verbatim>\<open>store.delete\<close> of the pass go through it. An IndexedDB transaction stays active while
  the worker awaits requests of its own; once the worker awaits something else (here the
  network fetch) with no request pending, the transaction commits, and a later request
  on its store throws \<^verbatim>\<open>TransactionInactiveError\<close>. Thrown inside the promise executor,
  the exception rejects the awaited promise and lands in the \<^verbatim>\<open>catch\<close> of the loop body.
  A request that fails (\<^verbatim>\<open>onerror\<close>, not cancelled) aborts its transaction, which undoes
  what the transaction wrote. Deleting a key that is not stored succeeds.

  The pass keeps: the entries as the transaction sees them, the entries as last
  committed, whether the transaction is active, and the platform calls made so far.
\<close>

datatype event =
    OpenTransaction
  | GetAll
  | NetworkFetch string
  | DeleteRequest nat "unit promise"

record pass =
  contents :: "(nat \<times> request_data) list"
  committed :: "(nat \<times> request_data) list"
  tx_active :: bool
  trace :: "event list"

definition store_delete :: "env \<Rightarrow> pass \<Rightarrow> nat \<Rightarrow> unit promise \<times> pass" where
  "store_delete e p key =
     (if \<not> tx_active p
      then (Rejected TransactionInactiveError,
            p\<lparr>trace := trace p @ [DeleteRequest key (Rejected TransactionInactiveError)]\<rparr>)
      else if delete_fails e key
      then (Rejected DeleteError,
            p\<lparr>contents := committed p, tx_active := False,
              trace := trace p @ [DeleteRequest key (Rejected DeleteError)]\<rparr>)
      else (Fulfilled (),
            p\<lparr>contents := filter (\<lambda>(k, _). k \<noteq> key) (contents p),
              trace := trace p @ [DeleteRequest key (Fulfilled ())]\<rparr>))"

definition await_fetch :: "pass \<Rightarrow> string \<Rightarrow> pass" where
  "await_fetch p u =
     p\<lparr>committed := contents p, tx_active := False, trace := trace p @ [NetworkFetch u]\<rparr>"

definition requestInit :: "request_data \<Rightarrow> request_init" where
  "requestInit rd =
     \<lparr>init_method = rd_method rd, init_headers = rd_headers rd,
      init_credentials = rd_credentials rd, init_body = rd_body rd\<rparr>"

text \<open>
  The loop over \<^verbatim>\<open>requests\<close>. Whatever the awaited delete answers, the loop goes on: a
  rejection is caught by the \<^verbatim>\<open>catch\<close> of the loop body. A fetch that never settles
  leaves the pass pending.
\<close>

fun process_requests :: "env \<Rightarrow> pass \<Rightarrow> (nat \<times> request_data) list \<Rightarrow> unit promise \<times> pass" where
  "process_requests e p [] = (Fulfilled (), p)"
| "process_requests e p ((key, rd) # rest) =
     (if rd_url rd = ''/api/mock-endpoint''
      then process_requests e (snd (store_delete e p key)) rest
      else
        (case fetch_init e (rd_url rd) (requestInit rd) of
           Pending \<Rightarrow> (Pending, await_fetch p (rd_url rd))
         | Rejected x \<Rightarrow> process_requests e (await_fetch p (rd_url rd)) rest
         | Fulfilled r \<Rightarrow>
             if ok r
             then process_requests e (snd (store_delete e (await_fetch p (rd_url rd)) key)) rest
             else process_requests e (await_fetch p (rd_url rd)) rest))"

definition processSyncQueue :: "env \<Rightarrow> sync_store \<Rightarrow> unit promise \<times> sync_store \<times> event list" where
  "processSyncQueue e st =
     (case db_open e of
        Rejected x \<Rightarrow> (Fulfilled (), st, [])
      | Pending \<Rightarrow> (Pending, st, [])
      | Fulfilled _ \<Rightarrow>
          if transaction_throws e then (Fulfilled (), st, [])
          else if getAll_fails e then (Fulfilled (), st, [OpenTransaction, GetAll])
          else if entries st = [] then (Fulfilled (), st, [OpenTransaction, GetAll])
          else
            (case process_requests e
                    \<lparr>contents = entries st, committed = entries st, tx_active = True,
                     trace = [OpenTransaction, GetAll]\<rparr> (entries st) of
               (r, p) \<Rightarrow> (r, st\<lparr>entries := contents p\<rparr>, trace p)))"

subsection \<open>The sync listener\<close>

record message =
  msg_type :: string
  msg_timestamp :: nat

text \<open>
  For the tag \<^verbatim>\<open>sync-queue\<close> the listener runs \<^verbatim>\<open>processSyncQueue\<close> and, when that
  promise is fulfilled, posts one message to every client. \<^verbatim>\<open>processSyncQueue\<close> catches
  what it throws, so it is never rejected. The timestamp is the clock at the broadcast.
\<close>

definition sync_listener :: "env \<Rightarrow> string \<Rightarrow> sync_store \<Rightarrow> unit promise \<times> sync_store \<times> (nat \<times> message) list" where
  "sync_listener e tag st =
     (if tag = ''sync-queue''
      then (case processSyncQueue e st of
              (Fulfilled _, st', tr) \<Rightarrow>
                (Fulfilled (), st',
                 map (\<lambda>c. (c, \<lparr>msg_type = ''SYNC_COMPLETED'', msg_timestamp = now e\<rparr>)) (clients e))
            | (Rejected x, st', tr) \<Rightarrow> (Fulfilled (), st', [])
            | (Pending, st', tr) \<Rightarrow> (Pending, st', []))
      else (Fulfilled (), st, []))"

subsection \<open>The push listener\<close>










section \<open>Notions used in the statements\<close>

subsection \<open>What a replay pass leaves in the store\<close>

text \<open>
  \<open>left_by_pass fails L cm c\<close> follows the loop over the entries \<open>L\<close> while the
  transaction is active: \<open>c\<close> is what the transaction sees, \<open>cm\<close> what was last
  committed. An entry for the mock endpoint is deleted, unless the delete request fails
  and the transaction is rolled back; at the first other entry the transaction ends.
\<close>

fun left_by_pass :: "(nat \<Rightarrow> bool) \<Rightarrow> (nat \<times> request_data) list \<Rightarrow> (nat \<times> request_data) list
    \<Rightarrow> (nat \<times> request_data) list \<Rightarrow> (nat \<times> request_data) list" where
  "left_by_pass fails [] cm c = c"
| "left_by_pass fails ((k, rd) # L) cm c =
     (if rd_url rd = ''/api/mock-endpoint''
      then (if fails k then cm else left_by_pass fails L cm (filter (\<lambda>(j, _). j \<noteq> k) c))
      else c)"

text \<open>The store answers: it opens, gives a transaction and reads all entries.\<close>

definition store_works :: "env \<Rightarrow> bool" where
  "store_works e = (db_open e = Fulfilled () \<and> \<not> transaction_throws e \<and> \<not> getAll_fails e)"

text \<open>Every fetch that a pass over \<open>L\<close> awaits settles.\<close>

definition settles :: "env \<Rightarrow> (nat \<times> request_data) list \<Rightarrow> bool" where
  "settles e L =
     list_all (\<lambda>(k, rd). rd_url rd = ''/api/mock-endpoint'' \<or>
                           fetch_init e (rd_url rd) (requestInit rd) \<noteq> Pending) L"

text \<open>A store on which a pass has nothing to delete: empty, or headed by a real request.\<close>

definition at_rest :: "(nat \<times> request_data) list \<Rightarrow> bool" where
  "at_rest S = (case S of [] \<Rightarrow> True | (k, rd) # _ \<Rightarrow> rd_url rd \<noteq> ''/api/mock-endpoint'')"

text \<open>The keys of the entries for the mock endpoint.\<close>

definition mock_keys :: "(nat \<times> request_data) list \<Rightarrow> nat list" where
  "mock_keys L = map fst (filter (\<lambda>(j, d). rd_url d = ''/api/mock-endpoint'') L)"

subsection \<open>The platform calls of a pass\<close>

text \<open>
  \<open>requests_made e active L\<close> lists the calls the loop makes on the entries \<open>L\<close>,
  started with the transaction active or not.
\<close>

fun requests_made :: "env \<Rightarrow> bool \<Rightarrow> (nat \<times> request_data) list \<Rightarrow> event list" where
  "requests_made e active [] = []"
| "requests_made e active ((k, rd) # L) =
     (if rd_url rd = ''/api/mock-endpoint''
      then (if \<not> active
            then DeleteRequest k (Rejected TransactionInactiveError) # requests_made e False L
            else if delete_fails e k
            then DeleteRequest k (Rejected DeleteError) # requests_made e False L
            else DeleteRequest k (Fulfilled ()) # requests_made e True L)
      else NetworkFetch (rd_url rd) #
           (case fetch_init e (rd_url rd) (requestInit rd) of
              Pending \<Rightarrow> []
            | Rejected x \<Rightarrow> requests_made e False L
            | Fulfilled r \<Rightarrow>
                if ok r
                then DeleteRequest k (Rejected TransactionInactiveError) # requests_made e False L
                else requests_made e False L))"

fun is_fetch :: "event \<Rightarrow> bool" where
  "is_fetch (NetworkFetch u) = True"
| "is_fetch v = False"

text \<open>
  A call that is possible on a transaction that has ended: no transaction is opened, and
  a delete request is the one the platform refuses.
\<close>

fun on_finished_transaction :: "event \<Rightarrow> bool" where
  "on_finished_transaction OpenTransaction = False"
| "on_finished_transaction (DeleteRequest k r) = (r = Rejected TransactionInactiveError)"
| "on_finished_transaction v = True"

definition after_first_fetch :: "event list \<Rightarrow> event list" where
  "after_first_fetch evs = dropWhile (\<lambda>v. \<not> is_fetch v) evs"

subsection \<open>What the worker has built\<close>

text \<open>
  A string with two slashes in a row. Every absolute URL has them after the protocol, and
  \<^verbatim>\<open>/api/mock-endpoint\<close> has not.
\<close>

fun double_slash :: "string \<Rightarrow> bool" where
  "double_slash (a # b # s) = ((a = CHR ''/'' \<and> b = CHR ''/'') \<or> double_slash (b # s))"
| "double_slash s = False"

text \<open>
  A store that only the worker has written: \<^verbatim>\<open>addToSyncQueue\<close> is the only code that
  adds to the object store \<^verbatim>\<open>sync-queue\<close> of the database \<^verbatim>\<open>sync-store\<close>, and the URL
  it stores is \<^verbatim>\<open>request.url\<close>, which is absolute.
\<close>

definition queued_by_worker :: "sync_store \<Rightarrow> bool" where
  "queued_by_worker st = list_all (\<lambda>(k, rd). double_slash (rd_url rd)) (entries st)"

text \<open>
  A cache storage that only the worker has written: the names of the caches are
  distinct, and every cache but the static-asset cache holds answers to API requests
  only. (The worker writes to the data cache under API requests, to the static-asset
  cache otherwise, and deletes every other cache when it is activated.)
\<close>

definition api_keys :: "cache \<Rightarrow> bool" where
  "api_keys c = list_all (\<lambda>(k, v). startsWith (pathname (req_url k)) ''/api'') c"

definition worker_caches :: "cache_storage \<Rightarrow> bool" where
  "worker_caches cs =
     (distinct (map fst cs) \<and> list_all (\<lambda>(n, c). n = CACHE_NAME \<or> api_keys c) cs)"

section \<open>Example inputs\<close>

text \<open>
  The worker of \<^verbatim>\<open>https://example.com\<close>, offline: every fetch is rejected, the store
  and the caches work, two clients are open.
\<close>

definition example_env :: env where
  "example_env =
     \<lparr>location_hostname = ''example.com'', location_protocol = ''https:'', now = 1234,
      fetch_nostore = (\<lambda>u. Rejected NetworkError),
      fetch_request = (\<lambda>r. Rejected NetworkError),
      fetch_init = (\<lambda>u i. Rejected NetworkError),
      cache_write_fails = False,
      db_open = Fulfilled (), transaction_throws = False, add_fails = False,
      getAll_fails = False, delete_fails = (\<lambda>k. False), sync_supported = True,
      clients = [1, 2]\<rparr>"

definition empty_world :: world where
  "empty_world = \<lparr>caches = [], queue = \<lparr>entries = [], next_key = 1\<rparr>, sync_tags = []\<rparr>"

text \<open>
  A navigation to the start page, its response, a world that has it cached, a newer
  response, and the response for a missing page.
\<close>

definition page_request :: request where
  "page_request =
     \<lparr>req_url = \<lparr>protocol = ''https:'', hostname = ''example.com'',
                  pathname = ''/IP-LAB3/index.html'', search = []\<rparr>,
      req_method = ''GET'', req_headers = [], req_credentials = ''include'',
      req_mode = ''navigate'', req_body = None\<rparr>"

definition page_response :: response where
  "page_response =
     \<lparr>status = 200, rtype = ''basic'', resp_headers = [], resp_vary = [],
      resp_body = Text ''<html></html>''\<rparr>"

definition cached_world :: world where
  "cached_world = empty_world\<lparr>caches := [(CACHE_NAME, [(page_request, page_response)])]\<rparr>"

definition newer_response :: response where
  "newer_response = page_response\<lparr>resp_body := Text ''<html>new</html>''\<rparr>"

definition missing_response :: response where
  "missing_response = page_response\<lparr>status := 404, resp_body := Text ''Not found''\<rparr>"

definition online_env :: env where
  "online_env = example_env\<lparr>fetch_nostore := (\<lambda>u. Fulfilled page_response)\<rparr>"

text \<open>A font from a whitelisted foreign host; its response has type \<^verbatim>\<open>cors\<close>.\<close>

definition font_request :: request where
  "font_request =
     \<lparr>req_url = \<lparr>protocol = ''https:'', hostname = ''fonts.gstatic.com'',
                  pathname = ''/s/roboto.woff2'', search = []\<rparr>,
      req_method = ''GET'', req_headers = [], req_credentials = ''omit'',
      req_mode = ''cors'', req_body = None\<rparr>"

definition font_response :: response where
  "font_response =
     \<lparr>status = 200, rtype = ''cors'', resp_headers = [], resp_vary = [],
      resp_body = Text ''wOF2''\<rparr>"

definition font_env :: env where
  "font_env = example_env\<lparr>fetch_nostore := (\<lambda>u. Fulfilled font_response)\<rparr>"

text \<open>
  Two POST requests without a body, one of them to the mock endpoint, and a POST to the
  mock endpoint with a JSON body of seven bytes.
\<close>

definition api_post :: request where
  "api_post =
     \<lparr>req_url = \<lparr>protocol = ''https:'', hostname = ''example.com'',
                  pathname = ''/api/items'', search = []\<rparr>,
      req_method = ''POST'', req_headers = [(''content-type'', ''application/json'')],
      req_credentials = ''same-origin'', req_mode = ''cors'', req_body = None\<rparr>"

definition mock_post :: request where
  "mock_post = api_post\<lparr>req_url := (req_url api_post)\<lparr>pathname := ''/api/mock-endpoint''\<rparr>\<rparr>"

definition body_post :: request where
  "body_post = mock_post\<lparr>req_body := Some [0x7B, 0x22, 0x78, 0x22, 0x3A, 0x31, 0x7D]\<rparr>"

text \<open>An answer of the API, a GET to the API, and a world whose data cache has the answer.\<close>

definition created :: response where
  "created =
     \<lparr>status = 201, rtype = ''basic'', resp_headers = [], resp_vary = [], resp_body = Text ''''\<rparr>"

definition api_get :: request where
  "api_get = api_post\<lparr>req_method := ''GET''\<rparr>"

definition api_cached_world :: world where
  "api_cached_world = empty_world\<lparr>caches := [(DATA_CACHE_NAME, [(api_get, created)])]\<rparr>"

text \<open>Later, the network is back: a replayed request is answered.\<close>

definition replay_env :: env where
  "replay_env = example_env\<lparr>fetch_init := (\<lambda>u i. Fulfilled created), now := 5678\<rparr>"

text \<open>Queue entries and stores.\<close>

definition items_entry :: request_data where
  "items_entry = requestData example_env api_post"

definition mock_entry :: request_data where
  "mock_entry = items_entry\<lparr>rd_url := ''/api/mock-endpoint''\<rparr>"

definition one_entry :: sync_store where
  "one_entry = \<lparr>entries = [(1, items_entry)], next_key = 2\<rparr>"

definition two_entries :: sync_store where
  "two_entries = \<lparr>entries = [(1, mock_entry), (2, items_entry)], next_key = 3\<rparr>"

definition completed :: "nat \<Rightarrow> nat \<Rightarrow> nat \<times> message" where
  "completed t c = (c, \<lparr>msg_type = ''SYNC_COMPLETED'', msg_timestamp = t\<rparr>)"





section \<open>Static assets\<close>

subsection \<open>The cache after a put\<close>

lemma cache_match_append:
  "cache_match (xs @ ys) r = (case cache_match xs r of Some v \<Rightarrow> Some v | None \<Rightarrow> cache_match ys r)"
  by (induction xs) auto

lemma cache_match_filter_none:
  "cache_match (filter (\<lambda>(k, u). \<not> matches k u r) c) r = None"
  by (induction c) auto

lemma matches_itself: "req_method r = ''GET'' \<Longrightarrow> matches r v r"
  by (simp add: matches_def list_all_iff)

lemma cache_match_put: "req_method r = ''GET'' \<Longrightarrow> cache_match (cache_put c r v) r = Some v"
  by (simp add: cache_put_def cache_match_append cache_match_filter_none matches_itself)

lemma cache_match_not_get: "req_method r \<noteq> ''GET'' \<Longrightarrow> cache_match c r = None"
  by (induction c) (auto simp: matches_def)

lemma caches_match_not_get: "req_method r \<noteq> ''GET'' \<Longrightarrow> caches_match cs r = None"
  by (induction cs) (auto simp: cache_match_not_get)

lemma caches_match_put_each:
  "req_method r = ''GET'' \<Longrightarrow> caches_match cs r = None \<Longrightarrow>
   caches_match (map (\<lambda>(n, c). if n = name then (n, cache_put c r v) else (n, c)) cs) r
     = (if name \<in> set (map fst cs) then Some v else None)"
  by (induction cs) (force simp: cache_match_put split: option.splits)+

lemma caches_match_append:
  "caches_match (cs @ ds) r = (case caches_match cs r of Some v \<Rightarrow> Some v | None \<Rightarrow> caches_match ds r)"
  by (induction cs) (auto split: option.splits)

lemma caches_open_names: "name \<in> set (map fst (caches_open cs name))"
  by (simp add: caches_open_def)

lemma caches_match_open: "caches_match (caches_open cs name) r = caches_match cs r"
  by (simp add: caches_open_def caches_match_append split: option.splits)

lemma caches_match_storage_put:
  "req_method r = ''GET'' \<Longrightarrow> caches_match cs r = None \<Longrightarrow>
   caches_match (storage_put cs name r v) r = Some v"
  unfolding storage_put_def
  using caches_match_put_each [of r "caches_open cs name" name v]
  by (simp add: caches_match_open caches_open_names del: set_map)

lemma map_of_put_each:
  "map_of (map (\<lambda>(n, c). if n = name then (n, cache_put c r v) else (n, c)) cs) name
     = map_option (\<lambda>c. cache_put c r v) (map_of cs name)"
  by (induction cs) auto

lemma map_of_caches_open: "map_of (caches_open cs name) name \<noteq> None"
  by (auto simp: caches_open_def map_of_eq_None_iff image_iff)

lemma cache_named_storage_put:
  "req_method r = ''GET'' \<Longrightarrow>
   cache_match (cache_named (storage_put cs name r v) name) r = Some v"
  using map_of_caches_open [of cs name]
  by (auto simp: cache_named_def storage_put_def map_of_put_each cache_match_put split: option.splits)

lemma static_hit:
  "caches_match cs req = Some cached \<Longrightarrow> fst (static_response e cs req) = Fulfilled (Some cached)"
  by (simp add: static_response_def)

subsection \<open>The caches of the worker\<close>

lemma api_keys_no_match:
  "api_keys c \<Longrightarrow> \<not> startsWith (pathname (req_url r)) ''/api'' \<Longrightarrow> cache_match c r = None"
  by (induction c) (auto simp: api_keys_def matches_def)

lemma other_caches_no_match:
  "list_all (\<lambda>(n, c). n = CACHE_NAME \<or> api_keys c) cs \<Longrightarrow> CACHE_NAME \<notin> set (map fst cs) \<Longrightarrow>
   \<not> startsWith (pathname (req_url r)) ''/api'' \<Longrightarrow> caches_match cs r = None"
  by (induction cs) (auto simp: api_keys_no_match)

text \<open>
  In the caches of the worker, what \<^verbatim>\<open>caches.match\<close> finds for a request outside the
  API is what the static-asset cache holds for it.
\<close>

lemma worker_caches_match:
  assumes "worker_caches cs" and "\<not> startsWith (pathname (req_url r)) ''/api''"
  shows "caches_match cs r = cache_match (cache_named cs CACHE_NAME) r"
  using assms(1) unfolding worker_caches_def
proof (induction cs)
  case Nil
  show ?case by (simp add: cache_named_def)
next
  case (Cons x cs)
  obtain n c where x: "x = (n, c)" by (cases x)
  have rest: "distinct (map fst cs) \<and> list_all (\<lambda>(n, c). n = CACHE_NAME \<or> api_keys c) cs"
    using Cons.prems by simp
  show ?case
  proof (cases "n = CACHE_NAME")
    case True
    have "CACHE_NAME \<notin> set (map fst cs)"
      using Cons.prems x True by simp
    then have "caches_match cs r = None"
      using rest assms(2) by (simp add: other_caches_no_match)
    then show ?thesis
      using x True by (simp add: cache_named_def split: option.splits)
  next
    case False
    have "api_keys c"
      using Cons.prems x False by simp
    then have "cache_match c r = None"
      using assms(2) by (rule api_keys_no_match)
    then show ?thesis
      using x False Cons.IH rest by (simp add: cache_named_def)
  qed
qed

subsection \<open>Cache hit\<close>

text \<open>
  Claim C6. A static-asset request (whitelisted hostname, path outside \<^verbatim>\<open>/api\<close>) that
  hits the static-asset cache, in the caches of the worker, is answered with the cached
  response, whatever the background refetch does: the network may fulfil, reject or never
  settle (\<open>net\<close> is arbitrary), and the cache write may fail (\<open>cw\<close>). The refetch and
  recache is triggered: the caches after the event are those \<^verbatim>\<open>fetchAndUpdateCache\<close>
  leaves, and a fresh response with status 200 and type \<^verbatim>\<open>basic\<close> that the cache accepts
  has replaced the cached one.
\<close>

theorem cache_hit_served:
  assumes "\<not> startsWith (pathname (req_url req)) ''/api''"
    and "hostname (req_url req) \<in> set (HOSTNAME_WHITELIST e)"
    and "worker_caches (caches w)"
    and "cache_match (cache_named (caches w) CACHE_NAME) req = Some cached"
  shows "fst (fetch_listener (e\<lparr>fetch_nostore := net, cache_write_fails := cw\<rparr>) w req)
           = RespondWith (Fulfilled (Some cached)) \<and>
         caches (snd (fetch_listener (e\<lparr>fetch_nostore := net, cache_write_fails := cw\<rparr>) w req))
           = snd (fetchAndUpdateCache (e\<lparr>fetch_nostore := net, cache_write_fails := cw\<rparr>) (caches w) req) \<and>
         (net (getFixedUrl e req) = Fulfilled r \<and> status r = 200 \<and> rtype r = ''basic'' \<and>
          \<not> put_refused req r \<and> \<not> cw \<longrightarrow>
            cache_match (cache_named
              (caches (snd (fetch_listener (e\<lparr>fetch_nostore := net, cache_write_fails := cw\<rparr>) w req)))
              CACHE_NAME) req = Some r)"
proof -
  let ?e = "e\<lparr>fetch_nostore := net, cache_write_fails := cw\<rparr>"
  have white: "hostname (req_url req) \<in> set (HOSTNAME_WHITELIST ?e)"
    using assms(2) by (simp add: HOSTNAME_WHITELIST_def)
  have hit: "caches_match (caches w) req = Some cached"
    using assms(1,3,4) by (simp add: worker_caches_match)
  have sr: "static_response ?e (caches w) req
              = (Fulfilled (Some cached), snd (fetchAndUpdateCache ?e (caches w) req))"
    using hit by (simp add: static_response_def)
  have fl: "fetch_listener ?e w req
              = (RespondWith (Fulfilled (Some cached)),
                 w\<lparr>caches := snd (fetchAndUpdateCache ?e (caches w) req)\<rparr>)"
    using assms(1) white sr by (simp add: fetch_listener_def)
  have url: "getFixedUrl ?e req = getFixedUrl e req"
    by (simp add: getFixedUrl_def Let_def)
  have get: "req_method req = ''GET''"
    using hit caches_match_not_get [of req "caches w"] by auto
  have stored: "cache_match (cache_named (snd (fetchAndUpdateCache ?e (caches w) req)) CACHE_NAME) req = Some r"
    if "net (getFixedUrl e req) = Fulfilled r \<and> status r = 200 \<and> rtype r = ''basic'' \<and>
        \<not> put_refused req r \<and> \<not> cw"
    using that url get by (simp add: fetchAndUpdateCache_def cache_named_storage_put)
  show ?thesis
  proof (intro conjI impI)
    show "fst (fetch_listener ?e w req) = RespondWith (Fulfilled (Some cached))"
      by (simp only: fl fst_conv)
    show "caches (snd (fetch_listener ?e w req)) = snd (fetchAndUpdateCache ?e (caches w) req)"
      by (simp add: fl)
    assume "net (getFixedUrl e req) = Fulfilled r \<and> status r = 200 \<and> rtype r = ''basic'' \<and>
            \<not> put_refused req r \<and> \<not> cw"
    then have "cache_match (cache_named (snd (fetchAndUpdateCache ?e (caches w) req)) CACHE_NAME) req = Some r"
      by (rule stored)
    then show "cache_match (cache_named (caches (snd (fetch_listener ?e w req))) CACHE_NAME) req = Some r"
      by (simp add: fl)
  qed
qed

theorem cache_hit_served_witness:
  "\<not> startsWith (pathname (req_url page_request)) ''/api'' \<and>
   hostname (req_url page_request) \<in> set (HOSTNAME_WHITELIST example_env) \<and>
   worker_caches (caches cached_world) \<and>
   cache_match (cache_named (caches cached_world) CACHE_NAME) page_request = Some page_response \<and>
   fst (fetch_listener (example_env\<lparr>fetch_nostore := (\<lambda>u. Pending), cache_write_fails := True\<rparr>)
          cached_world page_request)
     = RespondWith (Fulfilled (Some page_response)) \<and>
   fetch_listener (example_env\<lparr>fetch_nostore := (\<lambda>u. Fulfilled newer_response),
                               cache_write_fails := False\<rparr>) cached_world page_request
     = (RespondWith (Fulfilled (Some page_response)),
        cached_world\<lparr>caches := [(CACHE_NAME, [(page_request, newer_response)])]\<rparr>)"
proof -
  have a: "\<not> startsWith (pathname (req_url page_request)) ''/api''"
    by (simp add: page_request_def startsWith_def)
  have b: "hostname (req_url page_request) \<in> set (HOSTNAME_WHITELIST example_env)"
    by (simp add: page_request_def HOSTNAME_WHITELIST_def example_env_def)
  have c: "worker_caches (caches cached_world)"
    by (simp add: worker_caches_def cached_world_def empty_world_def)
  have d: "cache_match (cache_named (caches cached_world) CACHE_NAME) page_request = Some page_response"
    by (simp add: cache_named_def cached_world_def empty_world_def matches_def page_request_def
        page_response_def)
  have e: "fetch_listener (example_env\<lparr>fetch_nostore := (\<lambda>u. Fulfilled newer_response),
                                       cache_write_fails := False\<rparr>) cached_world page_request
             = (RespondWith (Fulfilled (Some page_response)),
                cached_world\<lparr>caches := [(CACHE_NAME, [(page_request, newer_response)])]\<rparr>)"
    by (simp add: fetch_listener_def static_response_def fetchAndUpdateCache_def storage_put_def
        caches_open_def cache_put_def put_refused_def matches_def HOSTNAME_WHITELIST_def
        startsWith_def cached_world_def empty_world_def example_env_def page_request_def
        page_response_def newer_response_def)
  show ?thesis
    using a b c d e
      cache_hit_served [OF a b c d, where net = "\<lambda>u. Pending" and cw = True and r = newer_response]
    by simp
qed

subsection \<open>Cache miss\<close>

text \<open>
  Claim C5, amended. A static-asset request that misses the static-asset cache, in the
  caches of the worker, and whose network fetch succeeds is answered with the fetched
  response. The response is stored in the static-asset cache under the original request
  (the fetch went to the cache-busted URL), so that the same request, repeated at once,
  is a cache hit, exactly when its status is 200, its type is \<^verbatim>\<open>basic\<close> and the cache
  takes it (the request is a GET of an \<^verbatim>\<open>http\<close> or \<^verbatim>\<open>https\<close> URL, the response
  has no \<^verbatim>\<open>Vary: *\<close>, the write does not fail). Otherwise the response is returned and
  the caches stay as they are.
\<close>

theorem cache_miss_stores:
  assumes "\<not> startsWith (pathname (req_url req)) ''/api''"
    and "hostname (req_url req) \<in> set (HOSTNAME_WHITELIST e)"
    and "worker_caches (caches w)"
    and "cache_match (cache_named (caches w) CACHE_NAME) req = None"
    and "fetch_nostore e (getFixedUrl e req) = Fulfilled r"
  shows "fst (fetch_listener e w req) = RespondWith (Fulfilled (Some r)) \<and>
         (status r = 200 \<and> rtype r = ''basic'' \<and> \<not> put_refused req r \<and> \<not> cache_write_fails e \<longrightarrow>
            cache_match (cache_named (caches (snd (fetch_listener e w req))) CACHE_NAME) req = Some r \<and>
            fst (fetch_listener (e\<lparr>fetch_nostore := net, cache_write_fails := cw\<rparr>)
                   (snd (fetch_listener e w req)) req)
              = RespondWith (Fulfilled (Some r))) \<and>
         (\<not> (status r = 200 \<and> rtype r = ''basic'' \<and> \<not> put_refused req r \<and> \<not> cache_write_fails e) \<longrightarrow>
            caches (snd (fetch_listener e w req)) = caches w)"
proof -
  let ?stored = "status r = 200 \<and> rtype r = ''basic'' \<and> \<not> put_refused req r \<and> \<not> cache_write_fails e"
  let ?cs = "storage_put (caches w) CACHE_NAME req r"
  let ?e = "e\<lparr>fetch_nostore := net, cache_write_fails := cw\<rparr>"
  have miss: "caches_match (caches w) req = None"
    using assms(1,3,4) by (simp add: worker_caches_match)
  have fu: "fetchAndUpdateCache e (caches w) req = (Fulfilled r, if ?stored then ?cs else caches w)"
    using assms(5) by (auto simp: fetchAndUpdateCache_def)
  have sr: "static_response e (caches w) req = (Fulfilled (Some r), if ?stored then ?cs else caches w)"
    using miss fu by (simp add: static_response_def)
  have fl: "fetch_listener e w req
              = (RespondWith (Fulfilled (Some r)), w\<lparr>caches := (if ?stored then ?cs else caches w)\<rparr>)"
    using assms(1,2) sr by (simp add: fetch_listener_def)
  have white: "hostname (req_url req) \<in> set (HOSTNAME_WHITELIST ?e)"
    using assms(2) by (simp add: HOSTNAME_WHITELIST_def)
  have again: "cache_match (cache_named ?cs CACHE_NAME) req = Some r \<and>
               fst (fetch_listener ?e (w\<lparr>caches := ?cs\<rparr>) req) = RespondWith (Fulfilled (Some r))"
    if "?stored"
  proof -
    have get: "req_method req = ''GET''"
      using that by (simp add: put_refused_def)
    have "caches_match ?cs req = Some r"
      using get miss by (rule caches_match_storage_put)
    then have "fst (static_response ?e ?cs req) = Fulfilled (Some r)"
      by (rule static_hit)
    then show ?thesis
      using assms(1) white get by (simp add: fetch_listener_def case_prod_beta cache_named_storage_put)
  qed
  show ?thesis
    using fl again by auto
qed

theorem cache_miss_stores_witness:
  "worker_caches (caches empty_world) \<and>
   cache_match (cache_named (caches empty_world) CACHE_NAME) page_request = None \<and>
   fetch_nostore online_env (getFixedUrl online_env page_request) = Fulfilled page_response \<and>
   fst (fetch_listener online_env empty_world page_request) = RespondWith (Fulfilled (Some page_response)) \<and>
   cache_match (cache_named (caches (snd (fetch_listener online_env empty_world page_request))) CACHE_NAME)
     page_request = Some page_response \<and>
   fst (fetch_listener example_env (snd (fetch_listener online_env empty_world page_request)) page_request)
     = RespondWith (Fulfilled (Some page_response)) \<and>
   fetch_listener (online_env\<lparr>fetch_nostore := (\<lambda>u. Fulfilled missing_response)\<rparr>) empty_world page_request
     = (RespondWith (Fulfilled (Some missing_response)), empty_world)"
proof -
  let ?e404 = "online_env\<lparr>fetch_nostore := (\<lambda>u. Fulfilled missing_response)\<rparr>"
  have a: "\<not> startsWith (pathname (req_url page_request)) ''/api''"
    by (simp add: page_request_def startsWith_def)
  have b: "hostname (req_url page_request) \<in> set (HOSTNAME_WHITELIST online_env)"
    "hostname (req_url page_request) \<in> set (HOSTNAME_WHITELIST ?e404)"
    by (simp_all add: page_request_def HOSTNAME_WHITELIST_def online_env_def example_env_def)
  have c: "worker_caches (caches empty_world)"
    by (simp add: worker_caches_def empty_world_def)
  have d: "cache_match (cache_named (caches empty_world) CACHE_NAME) page_request = None"
    by (simp add: cache_named_def empty_world_def)
  have f: "fetch_nostore online_env (getFixedUrl online_env page_request) = Fulfilled page_response"
    by (simp add: online_env_def)
  have f404: "fetch_nostore ?e404 (getFixedUrl ?e404 page_request) = Fulfilled missing_response"
    by simp
  have g: "status page_response = 200 \<and> rtype page_response = ''basic'' \<and>
           \<not> put_refused page_request page_response \<and> \<not> cache_write_fails online_env"
    by (simp add: page_response_def page_request_def put_refused_def online_env_def example_env_def)
  have h: "status missing_response \<noteq> 200"
    by (simp add: missing_response_def)
  have i: "online_env\<lparr>fetch_nostore := (\<lambda>u. Rejected NetworkError), cache_write_fails := False\<rparr> = example_env"
    by (simp add: online_env_def example_env_def)
  have j: "fst (fetch_listener ?e404 empty_world page_request) = RespondWith (Fulfilled (Some missing_response))
           \<and> caches (snd (fetch_listener ?e404 empty_world page_request)) = caches empty_world"
    using h cache_miss_stores [OF a b(2) c d f404] by simp
  have k: "snd (fetch_listener ?e404 empty_world page_request)
             = empty_world\<lparr>caches := caches (snd (fetch_listener ?e404 empty_world page_request))\<rparr>"
    using a b(2) by (simp add: fetch_listener_def case_prod_beta)
  have l: "fetch_listener ?e404 empty_world page_request
             = (RespondWith (Fulfilled (Some missing_response)), empty_world)"
    using j k by (simp add: prod_eq_iff)
  show ?thesis
    using c d f g i l
      cache_miss_stores [OF a b(1) c d f, where net = "\<lambda>u. Rejected NetworkError" and cw = False]
    by simp
qed

text \<open>
  As first stated the claim fails: a font from \<^verbatim>\<open>fonts.gstatic.com\<close> is fetched with
  status 200, but its response has type \<^verbatim>\<open>cors\<close>, so \<^verbatim>\<open>fetchAndUpdateCache\<close>
  returns it without storing it.
\<close>

theorem cross_origin_not_stored:
  "hostname (req_url font_request) \<in> set (HOSTNAME_WHITELIST font_env) \<and>
   \<not> startsWith (pathname (req_url font_request)) ''/api'' \<and>
   caches_match (caches empty_world) font_request = None \<and>
   fetch_nostore font_env (getFixedUrl font_env font_request) = Fulfilled font_response \<and>
   ok font_response \<and>
   fst (fetch_listener font_env empty_world font_request) = RespondWith (Fulfilled (Some font_response)) \<and>
   caches_match (caches (snd (fetch_listener font_env empty_world font_request))) font_request = None"
  by (simp add: font_env_def example_env_def font_request_def font_response_def empty_world_def
      HOSTNAME_WHITELIST_def startsWith_def ok_def fetch_listener_def static_response_def
      fetchAndUpdateCache_def)

text \<open>The worker keeps its caches as \<open>worker_caches\<close> says.\<close>

lemma api_keys_put:
  "api_keys c \<Longrightarrow> startsWith (pathname (req_url r)) ''/api'' \<Longrightarrow> api_keys (cache_put c r v)"
  by (simp add: api_keys_def cache_put_def list_all_iff)

lemma caches_open_distinct: "distinct (map fst cs) \<Longrightarrow> distinct (map fst (caches_open cs name))"
  by (simp add: caches_open_def)

lemma storage_put_names: "map fst (storage_put cs name r v) = map fst (caches_open cs name)"
  by (simp add: storage_put_def case_prod_beta comp_def)

lemma list_all_put_each:
  "list_all P cs \<Longrightarrow> (\<And>c. P (name, c) \<Longrightarrow> P (name, cache_put c r v)) \<Longrightarrow>
   list_all P (map (\<lambda>(n, c). if n = name then (n, cache_put c r v) else (n, c)) cs)"
  by (induction cs) auto

lemma list_all_caches_open: "list_all P cs \<Longrightarrow> P (name, []) \<Longrightarrow> list_all P (caches_open cs name)"
  by (simp add: caches_open_def)

lemma worker_caches_put_static:
  assumes "worker_caches cs"
  shows "worker_caches (storage_put cs CACHE_NAME r v)"
proof -
  let ?P = "\<lambda>(n, c). n = CACHE_NAME \<or> api_keys c"
  have "list_all ?P (caches_open cs CACHE_NAME)"
    using assms by (simp add: worker_caches_def list_all_caches_open)
  then have "list_all ?P (storage_put cs CACHE_NAME r v)"
    unfolding storage_put_def by (rule list_all_put_each) simp
  then show ?thesis
    using assms by (simp add: worker_caches_def storage_put_names caches_open_distinct)
qed

lemma worker_caches_put_data:
  assumes "worker_caches cs" and "startsWith (pathname (req_url r)) ''/api''"
  shows "worker_caches (storage_put cs DATA_CACHE_NAME r v)"
proof -
  let ?P = "\<lambda>(n, c). n = CACHE_NAME \<or> api_keys c"
  have "list_all ?P (caches_open cs DATA_CACHE_NAME)"
    using assms(1) by (simp add: worker_caches_def list_all_caches_open api_keys_def)
  moreover have "\<And>c. ?P (DATA_CACHE_NAME, c) \<Longrightarrow> ?P (DATA_CACHE_NAME, cache_put c r v)"
    using assms(2) by (auto simp: api_keys_put)
  ultimately have "list_all ?P (storage_put cs DATA_CACHE_NAME r v)"
    unfolding storage_put_def by (rule list_all_put_each)
  then show ?thesis
    using assms(1) by (simp add: worker_caches_def storage_put_names caches_open_distinct)
qed

lemma fetchAndUpdateCache_keeps:
  "worker_caches cs \<Longrightarrow> worker_caches (snd (fetchAndUpdateCache e cs req))"
  by (simp add: fetchAndUpdateCache_def worker_caches_put_static split: promise.splits)

lemma static_response_keeps:
  assumes "worker_caches cs"
  shows "worker_caches (snd (static_response e cs req))"
proof (cases "fetchAndUpdateCache e cs req")
  case (Pair p cs')
  then have "worker_caches cs'"
    using fetchAndUpdateCache_keeps [OF assms, of e req] by simp
  then show ?thesis
    using Pair by (simp add: static_response_def split: option.splits promise.splits)
qed

lemma addToSyncQueue_caches: "caches (snd (addToSyncQueue e w req)) = caches w"
  by (simp add: addToSyncQueue_def register_sync_def split: promise.splits)

lemma network_failed_caches: "caches (snd (network_failed e w req c)) = caches w"
proof (cases "addToSyncQueue e w req")
  case (Pair p w')
  then have "caches w' = caches w"
    using addToSyncQueue_caches [of e w req] by simp
  then show ?thesis
    using Pair by (simp add: network_failed_def split: option.splits promise.splits)
qed

lemma handleAPIRequest_keeps:
  "worker_caches (caches w) \<Longrightarrow> startsWith (pathname (req_url req)) ''/api'' \<Longrightarrow>
   worker_caches (caches (snd (handleAPIRequest e w req)))"
  by (simp add: handleAPIRequest_def Let_def network_failed_caches worker_caches_put_data
      split: promise.splits)

lemma fetch_listener_keeps_caches:
  "worker_caches (caches w) \<Longrightarrow> worker_caches (caches (snd (fetch_listener e w req)))"
  by (simp add: fetch_listener_def case_prod_beta handleAPIRequest_keeps static_response_keeps)

lemma new_worker_caches: "worker_caches []"
  by (simp add: worker_caches_def)

section \<open>API requests and the queue\<close>

text \<open>
  Claim C1. The claim says that \<^verbatim>\<open>handleAPIRequest\<close> resolves to a response whenever
  the network fetch rejects, also when the insert into the store fails. In the worker the
  failed insert rejects the promise that \<^verbatim>\<open>addToSyncQueue\<close> returns without awaiting
  it, the \<^verbatim>\<open>catch\<close> of \<^verbatim>\<open>addToSyncQueue\<close> does not see it, and the rejection
  leaves \<^verbatim>\<open>handleAPIRequest\<close>: for the POST below, offline and with a failing insert,
  \<^verbatim>\<open>event.respondWith\<close> is given a rejected promise.
\<close>

theorem insert_failure_escapes:
  "startsWith (pathname (req_url api_post)) ''/api'' \<and>
   fetch_request (example_env\<lparr>add_fails := True\<rparr>) api_post = Rejected NetworkError \<and>
   fst (fetch_listener (example_env\<lparr>add_fails := True\<rparr>) empty_world api_post)
     = RespondWith (Rejected AddError)"
  by (simp add: example_env_def api_post_def empty_world_def startsWith_def fetch_listener_def
      handleAPIRequest_def network_failed_def addToSyncQueue_def lift_response_def)

text \<open>
  Claim C3. The claim says that a POST or PUT to the API whose network fetch rejects is
  put into the store and acknowledged. In the worker \<^verbatim>\<open>fetch(request)\<close> has taken the
  body of the request before the \<^verbatim>\<open>catch\<close> block calls \<^verbatim>\<open>request.clone()\<close>, so for
  every such request that has a body the clone throws a \<^verbatim>\<open>TypeError\<close>:
  \<^verbatim>\<open>event.respondWith\<close> is given a rejected promise, and the caches, the store and the
  sync registrations are as before. No cached response can stand in, since
  \<^verbatim>\<open>caches.match\<close> finds none for a POST or a PUT.
\<close>

theorem body_request_not_queued:
  assumes "startsWith (pathname (req_url req)) ''/api''"
    and "req_method req = ''POST'' \<or> req_method req = ''PUT''"
    and "req_body req \<noteq> None"
    and "fetch_request e req = Rejected x"
  shows "fetch_listener e w req = (RespondWith (Rejected TypeError), w)"
proof -
  have "req_method req \<noteq> ''GET''"
    using assms(2) by auto
  then have "caches_match (caches w) req = None"
    by (rule caches_match_not_get)
  then have "handleAPIRequest e w req = (Rejected TypeError, w)"
    using assms(2,3,4) by (simp add: handleAPIRequest_def network_failed_def)
  then show ?thesis
    using assms(1) by (simp add: fetch_listener_def lift_response_def)
qed

theorem body_request_not_queued_witness:
  "startsWith (pathname (req_url body_post)) ''/api'' \<and>
   req_method body_post = ''POST'' \<and>
   req_body body_post = Some [0x7B, 0x22, 0x78, 0x22, 0x3A, 0x31, 0x7D] \<and>
   fetch_request example_env body_post = Rejected NetworkError \<and>
   db_open example_env = Fulfilled () \<and> \<not> transaction_throws example_env \<and> \<not> add_fails example_env \<and>
   fetch_listener example_env empty_world body_post = (RespondWith (Rejected TypeError), empty_world) \<and>
   entries (queue empty_world) = []"
proof -
  have a: "startsWith (pathname (req_url body_post)) ''/api''"
    by (simp add: body_post_def mock_post_def api_post_def startsWith_def)
  have b: "req_method body_post = ''POST'' \<or> req_method body_post = ''PUT''"
    by (simp add: body_post_def mock_post_def api_post_def)
  have c: "req_body body_post \<noteq> None"
    by (simp add: body_post_def)
  have d: "fetch_request example_env body_post = Rejected NetworkError"
    by (simp add: example_env_def)
  show ?thesis
    using a d body_request_not_queued [OF a b c d, of empty_world]
    by (simp add: body_post_def mock_post_def api_post_def example_env_def empty_world_def)
qed

text \<open>
  A request without a body is queued as the claim says, when the store works: one entry
  is appended under the next key; it holds the URL, method, headers, credentials mode,
  timestamp and (empty) body of the request and nothing else, and the caller receives
  the response with status 200 whose JSON body has the message
  \<^verbatim>\<open>Request queued for sync\<close> and \<^verbatim>\<open>queued: true\<close>.
\<close>

theorem queued_when_offline:
  assumes "startsWith (pathname (req_url req)) ''/api''"
    and "req_method req = ''POST'' \<or> req_method req = ''PUT''"
    and "req_body req = None"
    and "fetch_request e req = Rejected x"
    and "db_open e = Fulfilled ()" and "\<not> transaction_throws e" and "\<not> add_fails e"
  shows "fst (fetch_listener e w req) = RespondWith (Fulfilled (Some queued_response)) \<and>
         entries (queue (snd (fetch_listener e w req)))
           = entries (queue w) @ [(next_key (queue w), requestData e req)] \<and>
         caches (snd (fetch_listener e w req)) = caches w \<and>
         status queued_response = 200 \<and>
         resp_body queued_response
           = JsonText (JObj [(''message'', JStr ''Request queued for sync''), (''queued'', JBool True)])"
proof -
  have "req_method req \<noteq> ''GET''"
    using assms(2) by auto
  then have c: "caches_match (caches w) req = None"
    by (rule caches_match_not_get)
  have q: "addToSyncQueue e w req
             = (Fulfilled (), register_sync e (w\<lparr>queue := store_add (queue w) (requestData e req)\<rparr>))"
    using assms(5-7) by (simp add: addToSyncQueue_def)
  have n: "network_failed e w req None
             = (Fulfilled queued_response,
                register_sync e (w\<lparr>queue := store_add (queue w) (requestData e req)\<rparr>))"
    using assms(2,3) q by (simp add: network_failed_def)
  have h: "handleAPIRequest e w req
             = (Fulfilled queued_response,
                register_sync e (w\<lparr>queue := store_add (queue w) (requestData e req)\<rparr>))"
    using assms(4) c n by (simp add: handleAPIRequest_def)
  show ?thesis
    using assms(1) h
    by (simp add: fetch_listener_def lift_response_def register_sync_def store_add_def
        queued_response_def)
qed

theorem queued_when_offline_witness:
  "startsWith (pathname (req_url api_post)) ''/api'' \<and>
   req_method api_post = ''POST'' \<and>
   req_body api_post = None \<and>
   fetch_request example_env api_post = Rejected NetworkError \<and>
   fst (fetch_listener example_env empty_world api_post) = RespondWith (Fulfilled (Some queued_response)) \<and>
   entries (queue (snd (fetch_listener example_env empty_world api_post)))
     = [(1, requestData example_env api_post)]"
proof -
  have a: "startsWith (pathname (req_url api_post)) ''/api''"
    by (simp add: api_post_def startsWith_def)
  have b: "req_method api_post = ''POST'' \<or> req_method api_post = ''PUT''"
    by (simp add: api_post_def)
  have c: "req_body api_post = None"
    by (simp add: api_post_def)
  have d: "fetch_request example_env api_post = Rejected NetworkError"
    by (simp add: example_env_def)
  have e: "db_open example_env = Fulfilled ()" "\<not> transaction_throws example_env"
    "\<not> add_fails example_env"
    by (simp_all add: example_env_def)
  show ?thesis
    using a c d queued_when_offline [OF a b c d e, of empty_world]
    by (simp add: api_post_def empty_world_def)
qed

text \<open>
  A rejection leaves \<^verbatim>\<open>handleAPIRequest\<close> in these cases only: the request is a POST or a
  PUT, and it has a body (\<^verbatim>\<open>request.clone()\<close> throws), or \<^verbatim>\<open>db.transaction\<close> or the
  insert fails.
\<close>

theorem rejection_only_from_queueing:
  assumes "fst (handleAPIRequest e w req) = Rejected x"
  shows "(req_method req = ''POST'' \<or> req_method req = ''PUT'') \<and>
         (req_body req \<noteq> None \<or> transaction_throws e \<or> add_fails e)"
proof -
  have nf: "fst (network_failed e w req c) = Rejected x \<Longrightarrow> ?thesis" for c
    by (auto simp: network_failed_def addToSyncQueue_def split: option.splits if_splits promise.splits)
  show ?thesis
    using assms nf
    by (auto simp: handleAPIRequest_def Let_def split: promise.splits if_splits)
qed

theorem rejection_only_from_queueing_witness:
  "fst (handleAPIRequest (example_env\<lparr>add_fails := True\<rparr>) empty_world api_post) = Rejected AddError \<and>
   req_method api_post = ''POST'' \<and> add_fails (example_env\<lparr>add_fails := True\<rparr>)"
proof -
  have a: "fst (handleAPIRequest (example_env\<lparr>add_fails := True\<rparr>) empty_world api_post)
             = Rejected AddError"
    by (simp add: example_env_def api_post_def empty_world_def handleAPIRequest_def
        network_failed_def addToSyncQueue_def)
  show ?thesis
    using a rejection_only_from_queueing [OF a] by (simp add: api_post_def)
qed

text \<open>
  A store that cannot be opened is swallowed: the caller of a request without a body
  gets the acknowledgment, and nothing is queued.
\<close>

theorem open_failure_swallowed:
  assumes "req_method req = ''POST'' \<or> req_method req = ''PUT''"
    and "req_body req = None"
    and "fetch_request e req = Rejected x"
    and "db_open e = Rejected y"
  shows "handleAPIRequest e w req = (Fulfilled queued_response, w)"
proof -
  have "req_method req \<noteq> ''GET''"
    using assms(1) by auto
  then have c: "caches_match (caches w) req = None"
    by (rule caches_match_not_get)
  have "addToSyncQueue e w req = (Fulfilled (), w)"
    using assms(4) by (simp add: addToSyncQueue_def)
  then have "network_failed e w req None = (Fulfilled queued_response, w)"
    using assms(1,2) by (simp add: network_failed_def)
  then show ?thesis
    using assms(3) c by (simp add: handleAPIRequest_def)
qed

theorem open_failure_swallowed_witness:
  "req_method api_post = ''POST'' \<and>
   req_body api_post = None \<and>
   fetch_request (example_env\<lparr>db_open := Rejected OpenDatabaseError\<rparr>) api_post = Rejected NetworkError \<and>
   handleAPIRequest (example_env\<lparr>db_open := Rejected OpenDatabaseError\<rparr>) empty_world api_post
     = (Fulfilled queued_response, empty_world)"
proof -
  let ?e = "example_env\<lparr>db_open := Rejected OpenDatabaseError\<rparr>"
  have a: "req_method api_post = ''POST'' \<or> req_method api_post = ''PUT''"
    by (simp add: api_post_def)
  have b: "req_body api_post = None"
    by (simp add: api_post_def)
  have c: "fetch_request ?e api_post = Rejected NetworkError"
    by (simp add: example_env_def)
  have d: "db_open ?e = Rejected OpenDatabaseError"
    by (simp add: example_env_def)
  show ?thesis
    using b c open_failure_swallowed [OF a b c d, of empty_world] by (simp add: api_post_def)
qed

text \<open>
  Without the network and without a cached response, a request with another method is
  answered with the JSON error of status 503.
\<close>

theorem other_methods_unavailable:
  assumes "req_method req \<noteq> ''POST''" and "req_method req \<noteq> ''PUT''"
    and "fetch_request e req = Rejected x"
    and "caches_match (caches w) req = None"
  shows "handleAPIRequest e w req = (Fulfilled unavailable_response, w) \<and>
         status unavailable_response = 503"
  using assms
  by (simp add: handleAPIRequest_def network_failed_def unavailable_response_def)

theorem other_methods_unavailable_witness:
  "req_method api_get = ''GET'' \<and>
   fetch_request example_env api_get = Rejected NetworkError \<and>
   handleAPIRequest example_env empty_world api_get = (Fulfilled unavailable_response, empty_world)"
proof -
  have a: "req_method api_get \<noteq> ''POST''" and b: "req_method api_get \<noteq> ''PUT''"
    by (simp_all add: api_get_def)
  have c: "fetch_request example_env api_get = Rejected NetworkError"
    by (simp add: example_env_def)
  have d: "caches_match (caches empty_world) api_get = None"
    by (simp add: empty_world_def)
  show ?thesis
    using c other_methods_unavailable [OF a b c d] by (simp add: api_get_def)
qed

text \<open>Without the network, a cached response is the answer, and nothing is queued.\<close>

theorem cached_answer_when_offline:
  assumes "fetch_request e req = Rejected x"
    and "caches_match (caches w) req = Some cached"
  shows "handleAPIRequest e w req = (Fulfilled cached, w)"
  using assms by (simp add: handleAPIRequest_def network_failed_def)

theorem cached_answer_when_offline_witness:
  "fetch_request example_env api_get = Rejected NetworkError \<and>
   caches_match (caches api_cached_world) api_get = Some created \<and>
   handleAPIRequest example_env api_cached_world api_get = (Fulfilled created, api_cached_world)"
proof -
  have a: "fetch_request example_env api_get = Rejected NetworkError"
    by (simp add: example_env_def)
  have b: "caches_match (caches api_cached_world) api_get = Some created"
    by (simp add: api_cached_world_def empty_world_def matches_def api_get_def created_def)
  show ?thesis
    using a b cached_answer_when_offline [OF a b] by simp
qed

text \<open>
  With the network, an ok response that the data cache takes is the answer and is
  written to the data cache under the request.
\<close>

theorem live_answer_cached:
  assumes "fetch_request e req = Fulfilled r" and "ok r"
    and "\<not> put_refused req r" and "\<not> cache_write_fails e"
  shows "fst (handleAPIRequest e w req) = Fulfilled r \<and>
         cache_match (cache_named (caches (snd (handleAPIRequest e w req))) DATA_CACHE_NAME) req = Some r"
proof -
  have "req_method req = ''GET''"
    using assms(3) by (simp add: put_refused_def)
  then show ?thesis
    using assms by (simp add: handleAPIRequest_def cache_named_storage_put)
qed

theorem live_answer_cached_witness:
  "ok created \<and> \<not> put_refused api_get created \<and>
   fst (handleAPIRequest (example_env\<lparr>fetch_request := (\<lambda>q. Fulfilled created)\<rparr>) empty_world api_get)
     = Fulfilled created \<and>
   cache_match (cache_named (caches (snd (handleAPIRequest
       (example_env\<lparr>fetch_request := (\<lambda>q. Fulfilled created)\<rparr>) empty_world api_get))) DATA_CACHE_NAME) api_get
     = Some created"
proof -
  let ?e = "example_env\<lparr>fetch_request := (\<lambda>q. Fulfilled created)\<rparr>"
  have a: "fetch_request ?e api_get = Fulfilled created"
    by simp
  have b: "ok created"
    by (simp add: ok_def created_def)
  have c: "\<not> put_refused api_get created"
    by (simp add: put_refused_def api_get_def api_post_def created_def)
  have d: "\<not> cache_write_fails ?e"
    by (simp add: example_env_def)
  show ?thesis
    using b c live_answer_cached [OF a b c d, of empty_world] by simp
qed

text \<open>
  The data cache takes no POST and no PUT: an ok answer to such a request throws at the
  cache write, inside the \<^verbatim>\<open>try\<close>, and the delivered request is handled like one that
  did not reach the network. With a body it is answered with a rejection; without a
  body it is queued and will be sent again.
\<close>

theorem delivered_post_handled_as_failure:
  assumes "req_method req = ''POST'' \<or> req_method req = ''PUT''"
    and "fetch_request e req = Fulfilled r" and "ok r"
  shows "if req_body req \<noteq> None then handleAPIRequest e w req = (Rejected TypeError, w)
         else handleAPIRequest e w req
                = (case addToSyncQueue e w req of
                     (Fulfilled u, w') \<Rightarrow> (Fulfilled queued_response, w')
                   | (Rejected y, w') \<Rightarrow> (Rejected y, w')
                   | (Pending, w') \<Rightarrow> (Pending, w'))"
proof -
  have m: "req_method req \<noteq> ''GET''"
    using assms(1) by auto
  then have c: "caches_match (caches w) req = None"
    by (rule caches_match_not_get)
  have p: "put_refused req r"
    using m by (simp add: put_refused_def)
  have h: "handleAPIRequest e w req = network_failed e w req None"
    using assms(2,3) c p by (simp add: handleAPIRequest_def)
  show ?thesis
    using h assms(1) by (simp add: network_failed_def)
qed

theorem delivered_post_handled_as_failure_witness:
  "req_method body_post = ''POST'' \<and> ok created \<and>
   handleAPIRequest (example_env\<lparr>fetch_request := (\<lambda>q. Fulfilled created)\<rparr>) empty_world body_post
     = (Rejected TypeError, empty_world) \<and>
   fst (handleAPIRequest (example_env\<lparr>fetch_request := (\<lambda>q. Fulfilled created)\<rparr>) empty_world api_post)
     = Fulfilled queued_response \<and>
   entries (queue (snd (handleAPIRequest (example_env\<lparr>fetch_request := (\<lambda>q. Fulfilled created)\<rparr>)
                          empty_world api_post)))
     = [(1, requestData example_env api_post)]"
proof -
  let ?e = "example_env\<lparr>fetch_request := (\<lambda>q. Fulfilled created)\<rparr>"
  have a: "req_method body_post = ''POST'' \<or> req_method body_post = ''PUT''"
    "req_method api_post = ''POST'' \<or> req_method api_post = ''PUT''"
    by (simp_all add: body_post_def mock_post_def api_post_def)
  have b: "fetch_request ?e body_post = Fulfilled created" "fetch_request ?e api_post = Fulfilled created"
    by simp_all
  have c: "ok created"
    by (simp add: ok_def created_def)
  have d: "req_body body_post \<noteq> None" "req_body api_post = None"
    by (simp_all add: body_post_def api_post_def)
  have q: "addToSyncQueue ?e empty_world api_post
             = (Fulfilled (), register_sync ?e
                  (empty_world\<lparr>queue := store_add (queue empty_world) (requestData ?e api_post)\<rparr>))"
    by (simp add: addToSyncQueue_def example_env_def)
  have r: "requestData ?e api_post = requestData example_env api_post"
    by (simp add: requestData_def)
  have x: "handleAPIRequest ?e empty_world body_post = (Rejected TypeError, empty_world)"
    using d(1) delivered_post_handled_as_failure [OF a(1) b(1) c, of empty_world] by simp
  have y: "handleAPIRequest ?e empty_world api_post
             = (Fulfilled queued_response, register_sync ?e
                  (empty_world\<lparr>queue := store_add (queue empty_world) (requestData ?e api_post)\<rparr>))"
    using d(2) q delivered_post_handled_as_failure [OF a(2) b(2) c, of empty_world] by simp
  have z: "entries (queue (snd (handleAPIRequest ?e empty_world api_post)))
             = [(1, requestData example_env api_post)]"
    unfolding y r by (simp add: register_sync_def store_add_def empty_world_def)
  show ?thesis
    using c x y z by (simp add: body_post_def mock_post_def api_post_def)
qed




section \<open>Replay\<close>

subsection \<open>The store after a pass\<close>

lemma store_delete_inactive:
  "\<not> tx_active p \<Longrightarrow>
   \<not> tx_active (snd (store_delete e p k)) \<and> contents (snd (store_delete e p k)) = contents p"
  by (simp add: store_delete_def)

lemma await_fetch_inactive:
  "\<not> tx_active (await_fetch p u) \<and> contents (await_fetch p u) = contents p"
  by (simp add: await_fetch_def)

lemma inactive_frame:
  "\<not> tx_active p \<Longrightarrow> contents (snd (process_requests e p L)) = contents p"
proof (induction L arbitrary: p)
  case Nil
  then show ?case by simp
next
  case (Cons x L)
  obtain k rd where x: "x = (k, rd)" by (cases x)
  show ?case
  proof (cases "rd_url rd = ''/api/mock-endpoint''")
    case True
    then show ?thesis
      using Cons.IH [of "snd (store_delete e p k)"] store_delete_inactive [OF Cons.prems, of e k] x
      by simp
  next
    case False
    let ?q = "await_fetch p (rd_url rd)"
    have q: "\<not> tx_active ?q" "contents ?q = contents p"
      using await_fetch_inactive [of p "rd_url rd"] by simp_all
    have d: "\<not> tx_active (snd (store_delete e ?q k))" "contents (snd (store_delete e ?q k)) = contents p"
      using store_delete_inactive [OF q(1), of e k] q(2) by simp_all
    show ?thesis
      using False x q d Cons.IH [of ?q] Cons.IH [of "snd (store_delete e ?q k)"]
      by (simp split: promise.splits)
  qed
qed

lemma active_run:
  "tx_active p \<Longrightarrow>
   contents (snd (process_requests e p L)) = left_by_pass (delete_fails e) L (committed p) (contents p)"
proof (induction L arbitrary: p)
  case Nil
  then show ?case by simp
next
  case (Cons x L)
  obtain k rd where x: "x = (k, rd)" by (cases x)
  show ?case
  proof (cases "rd_url rd = ''/api/mock-endpoint''")
    case mock: True
    show ?thesis
    proof (cases "delete_fails e k")
      case True
      have "\<not> tx_active (snd (store_delete e p k))" "contents (snd (store_delete e p k)) = committed p"
        using True Cons.prems by (simp_all add: store_delete_def)
      then have "contents (snd (process_requests e (snd (store_delete e p k)) L)) = committed p"
        using inactive_frame by simp
      then show ?thesis
        using mock True x by simp
    next
      case False
      let ?q = "snd (store_delete e p k)"
      have q: "tx_active ?q" "committed ?q = committed p"
        "contents ?q = filter (\<lambda>(j, _). j \<noteq> k) (contents p)"
        using False Cons.prems by (simp_all add: store_delete_def)
      show ?thesis
        using mock False x Cons.IH [OF q(1)] q(2,3) by simp
    qed
  next
    case False
    let ?q = "await_fetch p (rd_url rd)"
    have q: "\<not> tx_active ?q" "contents ?q = contents p"
      using await_fetch_inactive [of p "rd_url rd"] by simp_all
    have d: "\<not> tx_active (snd (store_delete e ?q k))" "contents (snd (store_delete e ?q k)) = contents p"
      using store_delete_inactive [OF q(1), of e k] q(2) by simp_all
    have "contents (snd (process_requests e p (x # L))) = contents p"
      using False x q d inactive_frame [OF q(1), of e L] inactive_frame [OF d(1), of e L]
      by (simp split: promise.splits)
    then show ?thesis
      using False x by simp
  qed
qed

lemma at_rest_fixed: "at_rest S \<Longrightarrow> left_by_pass fails S cm S = S"
  by (cases S) (auto simp: at_rest_def)

lemma loop_never_rejected: "fst (process_requests e p L) \<noteq> Rejected x"
proof (induction L arbitrary: p)
  case Nil
  show ?case by simp
next
  case (Cons y L)
  obtain k rd where y: "y = (k, rd)" by (cases y)
  show ?case
    using Cons.IH y by (simp split: promise.splits)
qed

lemma pass_entries:
  "entries (fst (snd (processSyncQueue e st))) =
     (if store_works e
      then left_by_pass (delete_fails e) (entries st) (entries st) (entries st)
      else entries st)"
proof (cases "store_works e \<and> entries st \<noteq> []")
  case True
  let ?p = "\<lparr>contents = entries st, committed = entries st, tx_active = True,
             trace = [OpenTransaction, GetAll]\<rparr>"
  have "contents (snd (process_requests e ?p (entries st)))
          = left_by_pass (delete_fails e) (entries st) (entries st) (entries st)"
    using active_run [of ?p e "entries st"] by simp
  then show ?thesis
    using True by (simp add: processSyncQueue_def store_works_def case_prod_beta)
next
  case False
  then show ?thesis
    by (auto simp: processSyncQueue_def store_works_def split: promise.splits)
qed

lemma pass_next_key: "next_key (fst (snd (processSyncQueue e st))) = next_key st"
  by (simp add: processSyncQueue_def case_prod_beta split: promise.splits)

lemma pass_never_rejected: "fst (processSyncQueue e st) \<noteq> Rejected x"
  using loop_never_rejected
  by (simp add: processSyncQueue_def case_prod_beta split: promise.splits)

lemma sync_listener_queue:
  "sync_listener e ''sync-queue'' st =
     (case fst (processSyncQueue e st) of
        Pending \<Rightarrow> (Pending, fst (snd (processSyncQueue e st)), [])
      | Rejected x \<Rightarrow> (Fulfilled (), fst (snd (processSyncQueue e st)), [])
      | Fulfilled _ \<Rightarrow>
          (Fulfilled (), fst (snd (processSyncQueue e st)),
           map (\<lambda>c. (c, \<lparr>msg_type = ''SYNC_COMPLETED'', msg_timestamp = now e\<rparr>)) (clients e)))"
  by (cases "processSyncQueue e st") (auto simp: sync_listener_def split: promise.splits)

lemma left_by_pass_keeps:
  "(k, rd) \<in> set c \<Longrightarrow> (k, rd) \<in> set cm \<Longrightarrow> k \<notin> set (mock_keys L) \<Longrightarrow>
   (k, rd) \<in> set (left_by_pass fails L cm c)"
proof (induction L arbitrary: c)
  case Nil
  then show ?case by simp
next
  case (Cons x L)
  obtain j d where x: "x = (j, d)" by (cases x)
  show ?case
  proof (cases "rd_url d = ''/api/mock-endpoint''")
    case True
    have "j \<noteq> k" and rest: "k \<notin> set (mock_keys L)"
      using Cons.prems(3) True x by (auto simp: mock_keys_def)
    then have "(k, rd) \<in> set (filter (\<lambda>(i, _). i \<noteq> j) c)"
      using Cons.prems(1) by simp
    then have "(k, rd) \<in> set (left_by_pass fails L cm (filter (\<lambda>(i, _). i \<noteq> j) c))"
      using Cons.IH Cons.prems(2) rest by blast
    then show ?thesis
      using True x Cons.prems(2) by simp
  next
    case False
    then show ?thesis
      using x Cons.prems(1) by simp
  qed
qed

lemma not_a_mock_key:
  assumes "distinct (map fst L)" and "(k, rd) \<in> set L" and "rd_url rd \<noteq> ''/api/mock-endpoint''"
  shows "k \<notin> set (mock_keys L)"
proof
  assume "k \<in> set (mock_keys L)"
  then obtain d where d: "(k, d) \<in> set L" "rd_url d = ''/api/mock-endpoint''"
    by (auto simp: mock_keys_def)
  have "d = rd"
    using assms(1) d(1) assms(2) by (rule eq_key_imp_eq_value)
  then show False
    using d(2) assms(3) by simp
qed

text \<open>
  Claim C2. The claim says that an entry whose replay fetch resolves with an ok status is
  deleted from the store. In the worker the delete is requested on the object store of
  the transaction opened before the fetch; that transaction has ended when the fetch
  settles, the request throws \<^verbatim>\<open>TransactionInactiveError\<close>, and the \<^verbatim>\<open>catch\<close> of the
  loop body logs it. So an entry that is not for the mock endpoint is in the store after
  every pass, whatever the network answers. (The store's keys are distinct.)
\<close>

theorem replayed_entry_stays:
  assumes "distinct (map fst (entries st))"
    and "(k, rd) \<in> set (entries st)"
    and "rd_url rd \<noteq> ''/api/mock-endpoint''"
  shows "(k, rd) \<in> set (entries (fst (snd (processSyncQueue e st))))"
proof -
  have "k \<notin> set (mock_keys (entries st))"
    using assms by (rule not_a_mock_key)
  then have "(k, rd) \<in> set (left_by_pass (delete_fails e) (entries st) (entries st) (entries st))"
    using assms(2) by (simp add: left_by_pass_keeps)
  then show ?thesis
    using assms(2) by (simp add: pass_entries)
qed

theorem replayed_entry_stays_witness:
  "(1, items_entry) \<in> set (entries one_entry) \<and>
   rd_url items_entry \<noteq> ''/api/mock-endpoint'' \<and>
   fetch_init replay_env (rd_url items_entry) (requestInit items_entry) = Fulfilled created \<and>
   ok created \<and>
   (1, items_entry) \<in> set (entries (fst (snd (processSyncQueue replay_env one_entry))))"
proof -
  have a: "distinct (map fst (entries one_entry))"
    by (simp add: one_entry_def)
  have b: "(1, items_entry) \<in> set (entries one_entry)"
    by (simp add: one_entry_def)
  have c: "rd_url items_entry \<noteq> ''/api/mock-endpoint''"
    by (simp add: items_entry_def requestData_def href_def api_post_def)
  show ?thesis
    using b c replayed_entry_stays [OF a b c, of replay_env]
    by (simp add: replay_env_def created_def ok_def)
qed

subsection \<open>Transactions of a pass\<close>

lemma trace_requests_made:
  "trace (snd (process_requests e p L)) = trace p @ requests_made e (tx_active p) L"
proof (induction L arbitrary: p)
  case Nil
  then show ?case by simp
next
  case (Cons x L)
  obtain k rd where x: "x = (k, rd)" by (cases x)
  show ?case
  proof (cases "rd_url rd = ''/api/mock-endpoint''")
    case True
    then show ?thesis
      using x Cons.IH [of "snd (store_delete e p k)"] by (simp add: store_delete_def)
  next
    case False
    let ?q = "await_fetch p (rd_url rd)"
    have q: "\<not> tx_active ?q" "trace ?q = trace p @ [NetworkFetch (rd_url rd)]"
      by (simp_all add: await_fetch_def)
    have d: "\<not> tx_active (snd (store_delete e ?q k))"
      "trace (snd (store_delete e ?q k))
         = trace p @ [NetworkFetch (rd_url rd), DeleteRequest k (Rejected TransactionInactiveError)]"
      using q by (simp_all add: store_delete_def)
    show ?thesis
    proof (cases "fetch_init e (rd_url rd) (requestInit rd)")
      case (Fulfilled r)
      then show ?thesis
        using False x q d Cons.IH [of ?q] Cons.IH [of "snd (store_delete e ?q k)"] by simp
    next
      case (Rejected y)
      then show ?thesis
        using False x q Cons.IH [of ?q] by simp
    next
      case Pending
      then show ?thesis
        using False x q by simp
    qed
  qed
qed

lemma inactive_requests: "list_all on_finished_transaction (requests_made e False L)"
  by (induction L) (auto split: promise.splits)

lemma list_all_after_first_fetch:
  "list_all P ys \<Longrightarrow> list_all P (after_first_fetch ys)"
  by (auto simp: after_first_fetch_def list_all_iff dest: set_dropWhileD)

lemma active_requests:
  "list_all on_finished_transaction (after_first_fetch (requests_made e True L))"
proof (induction L)
  case Nil
  then show ?case by (simp add: after_first_fetch_def)
next
  case (Cons x L)
  obtain k rd where x: "x = (k, rd)" by (cases x)
  have rest: "list_all on_finished_transaction (after_first_fetch (requests_made e False L))"
    using inactive_requests list_all_after_first_fetch by blast
  show ?case
  proof (cases "rd_url rd = ''/api/mock-endpoint''")
    case True
    then show ?thesis
      using x rest Cons.IH by (simp add: after_first_fetch_def)
  next
    case False
    then show ?thesis
      using x inactive_requests [of e L]
      by (simp add: after_first_fetch_def split: promise.splits)
  qed
qed

text \<open>
  Claim C4. The claim says that a deletion after a successful replay fetch is issued in a
  fresh transaction opened after the fetch. The worker opens one transaction per pass,
  before it reads the entries: from the first network fetch of a pass on, no transaction
  is opened, and every delete request is the one refused with
  \<^verbatim>\<open>TransactionInactiveError\<close>.
\<close>

theorem no_fresh_transaction:
  "list_all on_finished_transaction (after_first_fetch (snd (snd (processSyncQueue e st))))"
proof (cases "store_works e \<and> entries st \<noteq> []")
  case True
  let ?p = "\<lparr>contents = entries st, committed = entries st, tx_active = True,
             trace = [OpenTransaction, GetAll]\<rparr>"
  have "after_first_fetch (trace (snd (process_requests e ?p (entries st))))
          = after_first_fetch (requests_made e True (entries st))"
    by (simp add: trace_requests_made after_first_fetch_def)
  then show ?thesis
    using True active_requests [of e "entries st"]
    by (simp add: processSyncQueue_def store_works_def case_prod_beta)
next
  case False
  then show ?thesis
    by (auto simp: processSyncQueue_def store_works_def after_first_fetch_def split: promise.splits)
qed

theorem no_fresh_transaction_witness:
  "snd (snd (processSyncQueue replay_env one_entry)) =
     [OpenTransaction, GetAll, NetworkFetch ''https://example.com/api/items'',
      DeleteRequest 1 (Rejected TransactionInactiveError)] \<and>
   list_all on_finished_transaction (after_first_fetch (snd (snd (processSyncQueue replay_env one_entry))))"
proof -
  have "snd (snd (processSyncQueue replay_env one_entry)) =
     [OpenTransaction, GetAll, NetworkFetch ''https://example.com/api/items'',
      DeleteRequest 1 (Rejected TransactionInactiveError)]"
    by (simp add: one_entry_def items_entry_def requestData_def href_def api_post_def
        replay_env_def example_env_def created_def processSyncQueue_def store_delete_def
        await_fetch_def requestInit_def ok_def)
  then show ?thesis
    using no_fresh_transaction [of replay_env one_entry] by simp
qed

subsection \<open>Stores written by the worker\<close>

lemma double_slash_start: "double_slash (''//'' @ r)"
  by simp

lemma double_slash_Cons: "double_slash s \<Longrightarrow> double_slash (a # s)"
  by (cases s) auto

lemma double_slash_append: "double_slash (p @ ''//'' @ r)"
proof (induction p)
  case Nil
  show ?case by simp
next
  case (Cons a p)
  then show ?case
    using double_slash_Cons [of "p @ ''//'' @ r" a] by simp
qed

lemma double_slash_not_mock: "double_slash s \<Longrightarrow> s \<noteq> ''/api/mock-endpoint''"
  by auto

lemma queued_url_double_slash: "double_slash (rd_url (requestData e req))"
  using double_slash_append [of "protocol (req_url req)"
      "hostname (req_url req) @ pathname (req_url req) @ search (req_url req)"]
  by (simp add: requestData_def href_def)

text \<open>The store of a new worker is written by the worker alone, and stays so.\<close>

lemma addToSyncQueue_keeps:
  "queued_by_worker (queue w) \<Longrightarrow> queued_by_worker (queue (snd (addToSyncQueue e w req)))"
  by (simp add: addToSyncQueue_def queued_by_worker_def register_sync_def store_add_def
      queued_url_double_slash split: promise.splits)

lemma network_failed_keeps:
  "queued_by_worker (queue w) \<Longrightarrow> queued_by_worker (queue (snd (network_failed e w req c)))"
proof (cases "addToSyncQueue e w req")
  case (Pair p w')
  then have "queued_by_worker (queue w) \<Longrightarrow> queued_by_worker (queue w')"
    using addToSyncQueue_keeps [of w e req] by simp
  then show "queued_by_worker (queue w) \<Longrightarrow> ?thesis"
    using Pair by (simp add: network_failed_def split: option.splits promise.splits)
qed

lemma fetch_listener_keeps_queue:
  "queued_by_worker (queue w) \<Longrightarrow> queued_by_worker (queue (snd (fetch_listener e w req)))"
  using network_failed_keeps [of w e req]
  by (simp add: fetch_listener_def handleAPIRequest_def Let_def case_prod_beta
      split: promise.splits)

lemma worker_store_at_rest: "queued_by_worker st \<Longrightarrow> at_rest (entries st)"
  by (cases "entries st") (auto simp: queued_by_worker_def at_rest_def)

text \<open>A pass leaves such a store as it is, whatever the store and the network answer.\<close>

lemma worker_store_unchanged:
  assumes "queued_by_worker st"
  shows "fst (snd (processSyncQueue e st)) = st"
proof -
  have "left_by_pass (delete_fails e) (entries st) (entries st) (entries st) = entries st"
    using assms worker_store_at_rest at_rest_fixed by blast
  then have "entries (fst (snd (processSyncQueue e st))) = entries st"
    by (simp add: pass_entries)
  then show ?thesis
    using pass_next_key [of e st] by simp
qed

lemma processSyncQueue_keeps:
  "queued_by_worker st \<Longrightarrow> queued_by_worker (fst (snd (processSyncQueue e st)))"
  by (simp add: worker_store_unchanged)

text \<open>No entry of such a store is deleted: no delete request of a pass succeeds.\<close>

lemma no_delete_after_fetch: "DeleteRequest k (Fulfilled ()) \<notin> set (requests_made e False L)"
proof (induction L)
  case Nil
  show ?case by simp
next
  case (Cons x L)
  obtain j rd where x: "x = (j, rd)" by (cases x)
  show ?case
    using Cons.IH x by (simp split: promise.splits)
qed

lemma no_delete_at_rest:
  assumes "at_rest L"
  shows "DeleteRequest k (Fulfilled ()) \<notin> set (requests_made e True L)"
proof (cases L)
  case Nil
  then show ?thesis by simp
next
  case (Cons x L')
  obtain j rd where x: "x = (j, rd)" by (cases x)
  have "rd_url rd \<noteq> ''/api/mock-endpoint''"
    using assms Cons x by (simp add: at_rest_def)
  then show ?thesis
    using Cons x no_delete_after_fetch [of k e L'] by (simp split: promise.splits)
qed

lemma pass_trace:
  "snd (snd (processSyncQueue e st)) = [] \<or>
   snd (snd (processSyncQueue e st)) = [OpenTransaction, GetAll] \<or>
   snd (snd (processSyncQueue e st)) = [OpenTransaction, GetAll] @ requests_made e True (entries st)"
  by (simp add: processSyncQueue_def case_prod_beta trace_requests_made split: promise.splits)

lemma worker_store_no_delete:
  assumes "queued_by_worker st"
  shows "DeleteRequest k (Fulfilled ()) \<notin> set (snd (snd (processSyncQueue e st)))"
  using pass_trace [of e st] no_delete_at_rest [OF worker_store_at_rest [OF assms], of k e]
  by auto

subsection \<open>A pass completes\<close>

lemma settles_fulfilled: "settles e L \<Longrightarrow> fst (process_requests e p L) = Fulfilled ()"
proof (induction L arbitrary: p)
  case Nil
  show ?case by simp
next
  case (Cons y L)
  obtain k rd where y: "y = (k, rd)" by (cases y)
  have rest: "settles e L"
    using Cons.prems by (simp add: settles_def)
  have here: "rd_url rd = ''/api/mock-endpoint'' \<or> fetch_init e (rd_url rd) (requestInit rd) \<noteq> Pending"
    using Cons.prems y by (simp add: settles_def)
  show ?case
  proof (cases "rd_url rd = ''/api/mock-endpoint''")
    case True
    then show ?thesis
      using y Cons.IH [OF rest] by simp
  next
    case False
    then have "fetch_init e (rd_url rd) (requestInit rd) \<noteq> Pending"
      using here by simp
    then show ?thesis
      using False y Cons.IH [OF rest] by (simp split: promise.splits)
  qed
qed

text \<open>
  When the store opens or fails to open, and every fetch of the pass settles, the
  promise of \<^verbatim>\<open>processSyncQueue\<close> is fulfilled.
\<close>

lemma pass_fulfilled:
  assumes "db_open e \<noteq> Pending" and "settles e (entries st)"
  shows "fst (processSyncQueue e st) = Fulfilled ()"
  using assms settles_fulfilled [OF assms(2)]
  by (simp add: processSyncQueue_def case_prod_beta split: promise.splits)

subsection \<open>Two passes in succession\<close>

text \<open>
  Claim C7. The sync listener runs on a store that the worker has written, and leaves
  the store \<open>st1\<close>; the platform of this first run is arbitrary. It runs again on
  \<open>st1\<close> (no entry was added), on a platform that is arbitrary again but for this:
  opening the store and the fetches of the run settle. Then the second run is
  fulfilled, it leaves \<open>st1\<close> as it is, none of its delete requests succeeds, and it
  posts one \<^verbatim>\<open>SYNC_COMPLETED\<close> message, with the time of the second run, to every
  client.
\<close>

theorem second_replay_is_noop:
  assumes "queued_by_worker st"
    and "sync_listener e1 ''sync-queue'' st = (p1, st1, msgs1)"
    and "db_open e2 \<noteq> Pending"
    and "settles e2 (entries st1)"
  shows "sync_listener e2 ''sync-queue'' st1 =
           (Fulfilled (), st1,
            map (\<lambda>c. (c, \<lparr>msg_type = ''SYNC_COMPLETED'', msg_timestamp = now e2\<rparr>)) (clients e2)) \<and>
         DeleteRequest k (Fulfilled ()) \<notin> set (snd (snd (processSyncQueue e2 st1)))"
proof -
  have "st1 = fst (snd (processSyncQueue e1 st))"
    using assms(2) by (auto simp: sync_listener_queue split: promise.splits)
  then have st1: "st1 = st"
    using assms(1) by (simp add: worker_store_unchanged)
  have same: "fst (snd (processSyncQueue e2 st1)) = st1"
    using assms(1) st1 by (simp add: worker_store_unchanged)
  have fulfilled: "fst (processSyncQueue e2 st1) = Fulfilled ()"
    using assms(3,4) by (rule pass_fulfilled)
  have "DeleteRequest k (Fulfilled ()) \<notin> set (snd (snd (processSyncQueue e2 st1)))"
    using assms(1) st1 worker_store_no_delete by blast
  then show ?thesis
    using same fulfilled by (simp add: sync_listener_queue)
qed

theorem second_replay_is_noop_witness:
  "queued_by_worker one_entry \<and>
   sync_listener example_env ''sync-queue'' one_entry
     = (Fulfilled (), one_entry, map (completed 1234) [1, 2]) \<and>
   db_open replay_env \<noteq> Pending \<and>
   fetch_init replay_env (rd_url items_entry) (requestInit items_entry) = Fulfilled created \<and>
   settles replay_env (entries one_entry) \<and>
   sync_listener replay_env ''sync-queue'' one_entry
     = (Fulfilled (), one_entry, map (completed 5678) [1, 2]) \<and>
   DeleteRequest 1 (Fulfilled ()) \<notin> set (snd (snd (processSyncQueue replay_env one_entry)))"
proof -
  have a: "queued_by_worker one_entry"
    by (simp add: queued_by_worker_def one_entry_def items_entry_def requestData_def href_def
        api_post_def)
  have b: "sync_listener example_env ''sync-queue'' one_entry
             = (Fulfilled (), one_entry, map (completed 1234) [1, 2])"
    by (simp add: one_entry_def items_entry_def requestData_def href_def api_post_def
        example_env_def completed_def sync_listener_def processSyncQueue_def await_fetch_def
        requestInit_def)
  have c: "db_open replay_env \<noteq> Pending"
    by (simp add: replay_env_def example_env_def)
  have f: "fetch_init replay_env (rd_url items_entry) (requestInit items_entry) = Fulfilled created"
    by (simp add: replay_env_def)
  have d: "settles replay_env (entries one_entry)"
    using f by (simp add: settles_def one_entry_def)
  show ?thesis
    using a b c f d second_replay_is_noop [OF a b c d, of 1]
    by (simp add: completed_def replay_env_def example_env_def)
qed

subsection \<open>The mock endpoint\<close>

lemma no_failure_subset:
  "set (left_by_pass (\<lambda>j. False) L cm c) \<subseteq> set c"
proof (induction L arbitrary: c)
  case Nil
  show ?case by simp
next
  case (Cons x L)
  obtain k rd where x: "x = (k, rd)" by (cases x)
  have "set (left_by_pass (\<lambda>j. False) L cm (filter (\<lambda>(j, _). j \<noteq> k) c))
          \<subseteq> set (filter (\<lambda>(j, _). j \<noteq> k) c)"
    using Cons.IH by blast
  then show ?case
    using x by auto
qed

lemma leading_mock_deleted:
  assumes "list_all (\<lambda>(j, d). rd_url d = ''/api/mock-endpoint'') pre"
    and "(k, rd) \<in> set pre"
  shows "(k, rd) \<notin> set (left_by_pass (\<lambda>j. False) (pre @ rest) cm c)"
  using assms
proof (induction pre arbitrary: c)
  case Nil
  then show ?case by simp
next
  case (Cons x pre)
  obtain j d where x: "x = (j, d)" by (cases x)
  have mock: "rd_url d = ''/api/mock-endpoint''"
    and more: "list_all (\<lambda>(j, d). rd_url d = ''/api/mock-endpoint'') pre"
    using Cons.prems(1) x by simp_all
  let ?c = "filter (\<lambda>(i, _). i \<noteq> j) c"
  show ?case
  proof (cases "k = j")
    case True
    have "set (left_by_pass (\<lambda>j. False) (pre @ rest) cm ?c) \<subseteq> set ?c"
      by (rule no_failure_subset)
    then have "(k, rd) \<notin> set (left_by_pass (\<lambda>j. False) (pre @ rest) cm ?c)"
      using True by auto
    then show ?thesis
      using x mock by simp
  next
    case False
    then have "(k, rd) \<in> set pre"
      using Cons.prems(2) x by auto
    then have "(k, rd) \<notin> set (left_by_pass (\<lambda>j. False) (pre @ rest) cm ?c)"
      using Cons.IH more by blast
    then show ?thesis
      using x mock by simp
  qed
qed

lemma mock_never_fetched:
  "NetworkFetch ''/api/mock-endpoint'' \<notin> set (requests_made e active L)"
proof (induction L arbitrary: active)
  case Nil
  show ?case by simp
next
  case (Cons x L)
  obtain k rd where x: "x = (k, rd)" by (cases x)
  show ?case
    using Cons.IH x by (simp split: promise.splits)
qed

text \<open>
  An entry whose stored URL is the string \<^verbatim>\<open>/api/mock-endpoint\<close> and that stands in
  the store before every real request is deleted by a pass whose store works, and no
  fetch goes to the mock endpoint, whatever the network does.
\<close>

theorem leading_mock_entries_deleted:
  assumes "store_works e"
    and "\<forall>j. \<not> delete_fails e j"
    and "entries st = pre @ rest"
    and "list_all (\<lambda>(j, d). rd_url d = ''/api/mock-endpoint'') pre"
    and "(k, rd) \<in> set pre"
  shows "(k, rd) \<notin> set (entries (fst (snd (processSyncQueue e st)))) \<and>
         NetworkFetch ''/api/mock-endpoint'' \<notin> set (snd (snd (processSyncQueue e st)))"
proof -
  have "delete_fails e = (\<lambda>j. False)"
    using assms(2) by (intro ext) simp
  then have gone: "(k, rd) \<notin> set (left_by_pass (delete_fails e) (pre @ rest) (entries st) (entries st))"
    using leading_mock_deleted [OF assms(4,5)] by simp
  have "snd (snd (processSyncQueue e st)) = [OpenTransaction, GetAll] @ requests_made e True (entries st)"
    using assms(1)
    by (simp add: processSyncQueue_def store_works_def case_prod_beta trace_requests_made)
  then have "NetworkFetch ''/api/mock-endpoint'' \<notin> set (snd (snd (processSyncQueue e st)))"
    using mock_never_fetched [of e True "entries st"] by simp
  then show ?thesis
    using gone assms(1,3) by (simp add: pass_entries)
qed

theorem leading_mock_entries_deleted_witness:
  "(1, mock_entry) \<in> set [(1, mock_entry)] \<and>
   entries two_entries = [(1, mock_entry)] @ [(2, items_entry)] \<and>
   (1, mock_entry) \<notin> set (entries (fst (snd (processSyncQueue example_env two_entries)))) \<and>
   NetworkFetch ''/api/mock-endpoint'' \<notin> set (snd (snd (processSyncQueue example_env two_entries)))"
proof -
  have a: "store_works example_env" and b: "\<forall>j. \<not> delete_fails example_env j"
    by (simp_all add: store_works_def example_env_def)
  have c: "entries two_entries = [(1, mock_entry)] @ [(2, items_entry)]"
    by (simp add: two_entries_def)
  have d: "list_all (\<lambda>(j, d). rd_url d = ''/api/mock-endpoint'') [(1, mock_entry)]"
    by (simp add: mock_entry_def)
  have e: "(1, mock_entry) \<in> set [(1, mock_entry)]"
    by simp
  show ?thesis
    using c leading_mock_entries_deleted [OF a b c d e] by simp
qed

text \<open>
  The URL that \<^verbatim>\<open>addToSyncQueue\<close> stores is \<^verbatim>\<open>request.url\<close>, an absolute URL: it is
  never the string \<^verbatim>\<open>/api/mock-endpoint\<close> that \<^verbatim>\<open>processSyncQueue\<close> compares it with.
\<close>

theorem queued_url_not_mock: "rd_url (requestData e req) \<noteq> ''/api/mock-endpoint''"
proof
  assume "rd_url (requestData e req) = ''/api/mock-endpoint''"
  then have "double_slash ''/api/mock-endpoint''"
    using double_slash_append [of "protocol (req_url req)"
        "hostname (req_url req) @ pathname (req_url req) @ search (req_url req)"]
    by (simp add: requestData_def href_def)
  then show False by simp
qed

theorem queued_url_not_mock_witness:
  "rd_url (requestData example_env mock_post) = ''https://example.com/api/mock-endpoint'' \<and>
   rd_url (requestData example_env mock_post) \<noteq> ''/api/mock-endpoint''"
  using queued_url_not_mock [of example_env mock_post]
  by (simp add: mock_post_def api_post_def requestData_def href_def)

text \<open>
  Claim C8. The claim says that a POST queued to \<^verbatim>\<open>/api/mock-endpoint\<close> while offline
  (entry 1) is deleted by the next replay without a network fetch, whatever the network
  does. In the worker the entry holds the absolute URL, so the replay takes it for a real
  request: it fetches it, and the entry stays in the store, with the network down
  (the fetch rejects) and with the network up (the delete is refused).
\<close>

theorem queued_mock_post_is_fetched:
  "fst (fetch_listener example_env empty_world mock_post)
     = RespondWith (Fulfilled (Some queued_response)) \<and>
   entries (queue (snd (fetch_listener example_env empty_world mock_post)))
     = [(1, requestData example_env mock_post)] \<and>
   rd_url (requestData example_env mock_post) = ''https://example.com/api/mock-endpoint'' \<and>
   processSyncQueue example_env (queue (snd (fetch_listener example_env empty_world mock_post)))
     = (Fulfilled (), queue (snd (fetch_listener example_env empty_world mock_post)),
        [OpenTransaction, GetAll, NetworkFetch ''https://example.com/api/mock-endpoint'']) \<and>
   processSyncQueue replay_env (queue (snd (fetch_listener example_env empty_world mock_post)))
     = (Fulfilled (), queue (snd (fetch_listener example_env empty_world mock_post)),
        [OpenTransaction, GetAll, NetworkFetch ''https://example.com/api/mock-endpoint'',
         DeleteRequest 1 (Rejected TransactionInactiveError)])"
  by (simp add: mock_post_def api_post_def example_env_def replay_env_def created_def
      empty_world_def requestData_def href_def processSyncQueue_def store_delete_def
      await_fetch_def requestInit_def ok_def startsWith_def fetch_listener_def handleAPIRequest_def
      network_failed_def addToSyncQueue_def lift_response_def register_sync_def store_add_def)

section \<open>Push messages\<close>





end
